theory Spec2Isabelle
  imports Main "HOL-Library.Word" "HOL-Library.Product_Lexorder"
begin

section \<open>Data model of the font selector\<close>

text \<open>
  The source is \<^verbatim>\<open>sky/shell/ui/flutter_font_selector.cc\<close>. A C \<^verbatim>\<open>int\<close> is a 32-bit
  word read through \<open>sint\<close>; its arithmetic wraps around. A byte buffer is a list of
  8-bit words. A \<^verbatim>\<open>float\<close> is only copied and compared here, so it is kept as its
  32-bit pattern.
\<close>

type_synonym int32 = "32 word"
type_synonym bytes = "8 word list"
type_synonym float = "32 word"

text \<open>
  Modelled from the spec: the enums \<^verbatim>\<open>blink::FontStyle\<close>, \<^verbatim>\<open>blink::FontWeight\<close> and
  \<^verbatim>\<open>blink::FontOrientation\<close> are declared in a header outside this file. The spec gives
  the style as Normal or Italic and the weight as a scale of nine points, 100 to 900, of
  which 400 is normal; in the code the style is used as a condition that holds for
  Italic, so Normal is the member 0. A \<^verbatim>\<open>FontWeight\<close> is kept as the number of the enum
  member, \<^verbatim>\<open>FontWeight100\<close> = 0 up to \<^verbatim>\<open>FontWeight900\<close> = 8, with
  \<^verbatim>\<open>FontWeightNormal\<close> = \<^verbatim>\<open>FontWeight400\<close>, in the order of the table
  \<open>kFontWeightValue\<close>; the code converts it to \<^verbatim>\<open>size_t\<close> and guards the table lookup,
  so numbers beyond 8 are kept expressible.
\<close>

datatype FontStyle = FontStyleNormal | FontStyleItalic

datatype FontOrientation = Horizontal | Vertical

type_synonym FontWeight = nat

definition FontWeight600 :: FontWeight where
  "FontWeight600 = 5"

definition FontWeight900 :: FontWeight where
  "FontWeight900 = 8"

definition FontWeightNormal :: FontWeight where
  "FontWeightNormal = 3"

text \<open>
  Modelled from the spec: \<^verbatim>\<open>blink::FontDescription\<close> is declared outside this file. The
  record holds what the selector reads of it, which is the request of the spec: weight,
  style, effective size, orientation, subpixel positioning and the two explicit synthetic
  flags.
\<close>

record FontDescription =
  d_weight :: FontWeight
  d_style :: FontStyle
  effectiveFontSize :: float
  orientation :: FontOrientation
  useSubpixelPositioning :: bool
  isSyntheticBold :: bool
  isSyntheticItalic :: bool

text \<open>Style attributes of a Flutter font asset (\<^verbatim>\<open>struct FlutterFontAttributes\<close>).\<close>

record FlutterFontAttributes =
  asset_path :: string
  weight :: int32
  style :: FontStyle

text \<open>
  Undefined behaviour of the C++ program is a value of the model: a read of an array or
  of an iterator outside its range is the fault \<open>OutOfBounds\<close>.
\<close>

datatype fault = OutOfBounds

definition array_at :: "'a list \<Rightarrow> nat \<Rightarrow> fault + 'a" where
  "array_at xs i = (if i < length xs then Inr (xs ! i) else Inl OutOfBounds)"

section \<open>Weight values\<close>

definition kFontManifestAssetPath :: string where
  "kFontManifestAssetPath = ''FontManifest.json''"

definition kFontWeightValue :: "int32 list" where
  "kFontWeightValue = [100, 200, 300, 400, 500, 600, 700, 800, 900]"

definition kFontWeightNormal :: int32 where
  "kFontWeightNormal = kFontWeightValue ! FontWeightNormal"

text \<open>
  \<^verbatim>\<open>getFontWeightValue\<close>: the enum value becomes the \<^verbatim>\<open>size_t\<close> index
  \<open>weight_index\<close>; \<^verbatim>\<open>arraysize(kFontWeightValue)\<close> is the length of the table.
\<close>

definition getFontWeightValue :: "FontWeight \<Rightarrow> fault + int32" where
  "getFontWeightValue w =
     (let weight_index = w in
      if weight_index < length kFontWeightValue
      then array_at kFontWeightValue weight_index
      else Inr kFontWeightNormal)"

section \<open>The variant matcher\<close>

text \<open>
  \<^verbatim>\<open>struct FontMatcher\<close>: the constructor stores the description and looks the target
  weight up; \<^verbatim>\<open>operator()\<close> says whether \<open>font1\<close> is a closer match than \<open>font2\<close>.
  \<^verbatim>\<open>abs\<close> and the subtraction are those of \<^verbatim>\<open>int\<close>, the comparison is signed.
\<close>

record FontMatcher =
  description :: FontDescription
  target_weight :: int32

definition FontMatcher_new :: "FontDescription \<Rightarrow> fault + FontMatcher" where
  "FontMatcher_new d =
     (case getFontWeightValue (d_weight d) of
        Inl e \<Rightarrow> Inl e
      | Inr t \<Rightarrow> Inr \<lparr>description = d, target_weight = t\<rparr>)"

definition abs_int32 :: "int32 \<Rightarrow> int32" where
  "abs_int32 x = (if x <s 0 then - x else x)"

definition FontMatcher_call ::
  "FontMatcher \<Rightarrow> FlutterFontAttributes \<Rightarrow> FlutterFontAttributes \<Rightarrow> bool" where
  "FontMatcher_call m font1 font2 =
     (let weight_delta1 = abs_int32 (weight font1 - target_weight m);
          weight_delta2 = abs_int32 (weight font2 - target_weight m);
          by_weight = weight_delta1 <s weight_delta2
      in if style font1 \<noteq> style font2
         then (if style font1 = d_style (description m) then True
               else if style font2 = d_style (description m) then False
               else by_weight)
         else by_weight)"

text \<open>
  \<^verbatim>\<open>std::min_element(first, last, cmp)\<close> of the C++ standard library, on positions of
  the vector: \<open>smallest\<close> starts at the first position, and every later position \<open>i\<close>
  replaces it when \<open>cmp (xs ! i) (xs ! smallest)\<close>. On an empty range the result is
  \<open>last\<close>.
\<close>

function min_element_loop :: "('a \<Rightarrow> 'a \<Rightarrow> bool) \<Rightarrow> 'a list \<Rightarrow> nat \<Rightarrow> nat \<Rightarrow> nat" where
  "min_element_loop cmp xs i smallest =
     (if i < length xs
      then min_element_loop cmp xs (Suc i) (if cmp (xs ! i) (xs ! smallest) then i else smallest)
      else smallest)"
  by pat_completeness auto
termination
  by (relation "measure (\<lambda>(cmp, xs, i, smallest). length xs - i)") auto

declare min_element_loop.simps [simp del]

definition min_element :: "('a \<Rightarrow> 'a \<Rightarrow> bool) \<Rightarrow> 'a list \<Rightarrow> nat" where
  "min_element cmp xs = (if xs = [] then 0 else min_element_loop cmp xs 1 0)"

text \<open>
  Lines 233 to 239 of \<^verbatim>\<open>getTypefaceAsset\<close>: the position \<open>font_iter\<close> of the chosen
  variant. A family of one font is taken without building a matcher.
\<close>

definition selectFont :: "FontDescription \<Rightarrow> FlutterFontAttributes list \<Rightarrow> fault + nat" where
  "selectFont d fonts =
     (if length fonts = 1 then Inr 0
      else case FontMatcher_new d of
             Inl e \<Rightarrow> Inl e
           | Inr m \<Rightarrow> Inr (min_element (FontMatcher_call m) fonts))"

section \<open>Collaborators and the selector's state\<close>

text \<open>
  Modelled from the spec: \<^verbatim>\<open>SkTypeface\<close> is a class of the Skia library. The spec treats a
  typeface as an opaque handle; the selector asks it only whether it is bold or italic.
\<close>

record SkTypeface =
  uniqueID :: nat
  isBold :: bool
  isItalic :: bool

text \<open>A Skia typeface along with a buffer holding the raw typeface asset data.\<close>

record TypefaceAsset =
  typeface :: SkTypeface
  data :: bytes

text \<open>
  Modelled from the spec: the value tree of \<^verbatim>\<open>base/values.h\<close> and its accessors belong to
  a library outside this file. The spec takes the manifest as an already parsed JSON-like
  value tree, in which a field counts only when it is present with the expected type:
  \<^verbatim>\<open>GetAsList\<close> and \<^verbatim>\<open>GetAsDictionary\<close> succeed on a value of that type only;
  \<^verbatim>\<open>GetString\<close>, \<^verbatim>\<open>GetList\<close> and \<^verbatim>\<open>GetInteger\<close> of a dictionary succeed when the key is
  present with a value of that type, and leave their output argument alone otherwise. A
  double is kept as its bit pattern.
\<close>

datatype Value =
    NullValue
  | BooleanValue bool
  | IntegerValue int32
  | DoubleValue "64 word"
  | StringValue string
  | ListValue "Value list"
  | DictionaryValue "(string \<times> Value) list"

definition GetAsList :: "Value \<Rightarrow> Value list option" where
  "GetAsList v = (case v of ListValue xs \<Rightarrow> Some xs | _ \<Rightarrow> None)"

definition GetAsDictionary :: "Value \<Rightarrow> (string \<times> Value) list option" where
  "GetAsDictionary v = (case v of DictionaryValue kvs \<Rightarrow> Some kvs | _ \<Rightarrow> None)"

definition GetString :: "(string \<times> Value) list \<Rightarrow> string \<Rightarrow> string option" where
  "GetString dict key = (case map_of dict key of Some (StringValue str) \<Rightarrow> Some str | _ \<Rightarrow> None)"

definition GetList :: "(string \<times> Value) list \<Rightarrow> string \<Rightarrow> Value list option" where
  "GetList dict key = (case map_of dict key of Some (ListValue xs) \<Rightarrow> Some xs | _ \<Rightarrow> None)"

definition GetInteger :: "(string \<times> Value) list \<Rightarrow> string \<Rightarrow> int32 option" where
  "GetInteger dict key = (case map_of dict key of Some (IntegerValue n) \<Rightarrow> Some n | _ \<Rightarrow> None)"

text \<open>
  What the selector calls from outside: the asset bundle's \<^verbatim>\<open>GetAsBuffer\<close>, the JSON
  reader and the font manager's \<^verbatim>\<open>createFromStream\<close>. Each may answer differently from
  one call of the selector to the next, so each call takes them as an argument.
\<close>

record collaborators =
  GetAsBuffer :: "string \<Rightarrow> bytes option"
  JSONReader_Read :: "bytes \<Rightarrow> Value option"
  createFromStream :: "bytes \<Rightarrow> SkTypeface option"

datatype event = Fetch string | Construct bytes

text \<open>
  The platform data of a font-data object, with the arguments of the
  \<^verbatim>\<open>FontPlatformData\<close> constructor in their order. \<^verbatim>\<open>SimpleFontData::create\<close> allocates
  an object holding it.
\<close>

record FontPlatformData =
  pd_typeface :: SkTypeface
  pd_family :: string
  pd_textSize :: float
  pd_syntheticBold :: bool
  pd_syntheticItalic :: bool
  pd_orientation :: FontOrientation
  pd_useSubpixelPositioning :: bool

text \<open>
  Modelled from the spec: \<^verbatim>\<open>FontDescription::cacheKey\<close> and \<^verbatim>\<open>FontCacheKey\<close> are declared
  outside this file. The spec derives the key from the full style request:
  family, effective size, weight, slant, orientation, subpixel-positioning flag and the
  synthetic-bold and synthetic-italic flags.
\<close>

record FontCacheKey =
  k_family :: string
  k_size :: float
  k_weight :: FontWeight
  k_style :: FontStyle
  k_orientation :: FontOrientation
  k_subpixel :: bool
  k_syntheticBold :: bool
  k_syntheticItalic :: bool

definition cacheKey :: "FontDescription \<Rightarrow> string \<Rightarrow> FontCacheKey" where
  "cacheKey d family_name =
     \<lparr>k_family = family_name, k_size = effectiveFontSize d, k_weight = d_weight d,
      k_style = d_style d, k_orientation = orientation d,
      k_subpixel = useSubpixelPositioning d, k_syntheticBold = isSyntheticBold d,
      k_syntheticItalic = isSyntheticItalic d\<rparr>"

text \<open>
  The selector: the family map, the typeface cache (a stored \<open>None\<close> is the null entry of
  a failed load) and the font-data cache, whose values are references into
  \<open>font_data_heap\<close>, the store of the font-data objects allocated so far (an object's
  address is its position). \<open>trace\<close> lists the calls made to the collaborators, oldest
  first.
\<close>

record selector =
  font_family_map :: "string \<rightharpoonup> FlutterFontAttributes list"
  typeface_cache :: "string \<rightharpoonup> TypefaceAsset option"
  font_platform_data_cache :: "FontCacheKey \<rightharpoonup> nat"
  font_data_heap :: "FontPlatformData list"
  trace :: "event list"

definition FlutterFontSelector_new :: selector where
  "FlutterFontSelector_new =
     \<lparr>font_family_map = Map.empty, typeface_cache = Map.empty,
      font_platform_data_cache = Map.empty, font_data_heap = [], trace = []\<rparr>"

section \<open>Loading the manifest\<close>

definition FlutterFontAttributes_new :: "string \<Rightarrow> FlutterFontAttributes" where
  "FlutterFontAttributes_new path =
     \<lparr>asset_path = path, weight = kFontWeightNormal, style = FontStyleNormal\<rparr>"

text \<open>The body of the loop over \<open>font_list\<close> (lines 165 to 184).\<close>

definition parse_font :: "FlutterFontAttributes list \<Rightarrow> Value \<Rightarrow> FlutterFontAttributes list" where
  "parse_font family_assets list_entry =
     (case GetAsDictionary list_entry of
        None \<Rightarrow> family_assets
      | Some font_dict \<Rightarrow>
          (case GetString font_dict ''asset'' of
             None \<Rightarrow> family_assets
           | Some path \<Rightarrow>
               let attributes = FlutterFontAttributes_new path;
                   attributes = (case GetInteger font_dict ''weight'' of
                                   Some n \<Rightarrow> attributes\<lparr>weight := n\<rparr>
                                 | None \<Rightarrow> attributes);
                   attributes = (case GetString font_dict ''style'' of
                                   Some str \<Rightarrow>
                                     if str = ''italic''
                                     then attributes\<lparr>style := FontStyleItalic\<rparr>
                                     else attributes
                                 | None \<Rightarrow> attributes)
               in family_assets @ [attributes]))"

text \<open>
  \<^verbatim>\<open>std::string::c_str\<close>, read as a C string by its receiver: the characters before the
  first NUL.
\<close>

definition c_str :: "string \<Rightarrow> string" where
  "c_str str = takeWhile (\<lambda>ch. ch \<noteq> CHR 0x00) str"

text \<open>
  Modelled from the spec: \<^verbatim>\<open>AtomicString\<close> is declared outside this file. The spec keeps a
  family name as a string that is compared as given; \<^verbatim>\<open>AtomicString::fromUTF8\<close> of a C
  string is the string of its characters, for the UTF-8 that the JSON reader delivers.
\<close>

definition AtomicString_fromUTF8 :: "string \<Rightarrow> string" where
  "AtomicString_fromUTF8 characters = characters"

text \<open>
  The body of the loop over \<open>family_list\<close> (lines 147 to 185). The key of the family is
  made from \<^verbatim>\<open>family_name.c_str()\<close>, so a name is cut at its first NUL.
  \<^verbatim>\<open>font_family_map_.set\<close> of the hash map stores the empty vector it is given under
  that key, also when the key is present, and the fonts of this entry are pushed onto that
  stored vector; so after the inner loop the key holds the fonts parsed from this entry.
\<close>

definition parse_family ::
  "(string \<rightharpoonup> FlutterFontAttributes list) \<Rightarrow> Value \<Rightarrow> (string \<rightharpoonup> FlutterFontAttributes list)" where
  "parse_family family_map family =
     (case GetAsDictionary family of
        None \<Rightarrow> family_map
      | Some family_dict \<Rightarrow>
          (case GetString family_dict ''family'' of
             None \<Rightarrow> family_map
           | Some family_name \<Rightarrow>
               (case GetList family_dict ''fonts'' of
                  None \<Rightarrow> family_map
                | Some font_list \<Rightarrow>
                    let family_key = AtomicString_fromUTF8 (c_str family_name)
                    in family_map(family_key \<mapsto> foldl parse_font [] font_list))))"

definition parseFontManifest :: "collaborators \<Rightarrow> selector \<Rightarrow> selector" where
  "parseFontManifest c s =
     (let s1 = s\<lparr>trace := trace s @ [Fetch kFontManifestAssetPath]\<rparr> in
      case GetAsBuffer c kFontManifestAssetPath of
        None \<Rightarrow> s1
      | Some font_manifest_data \<Rightarrow>
          (case JSONReader_Read c font_manifest_data of
             None \<Rightarrow> s1
           | Some font_manifest_json \<Rightarrow>
               (case GetAsList font_manifest_json of
                  None \<Rightarrow> s1
                | Some family_list \<Rightarrow>
                    s1\<lparr>font_family_map := foldl parse_family (font_family_map s1) family_list\<rparr>)))"

definition install :: "collaborators \<Rightarrow> selector" where
  "install c = parseFontManifest c FlutterFontSelector_new"

section \<open>Resolving a request\<close>

text \<open>\<^verbatim>\<open>std::map::insert\<close>: a key that is present keeps its value.\<close>

definition cache_insert :: "('k \<rightharpoonup> 'v) \<Rightarrow> 'k \<Rightarrow> 'v \<Rightarrow> ('k \<rightharpoonup> 'v)" where
  "cache_insert m k v = (if m k = None then m(k \<mapsto> v) else m)"

text \<open>
  Lines 241 to 269 of \<^verbatim>\<open>getTypefaceAsset\<close>: the typeface of an asset path, from the
  cache or loaded through the collaborators.
\<close>

definition resolveTypeface :: "collaborators \<Rightarrow> string \<Rightarrow> selector \<Rightarrow> SkTypeface option \<times> selector" where
  "resolveTypeface c path s =
     (case typeface_cache s path of
        Some cache_asset \<Rightarrow>
          (case cache_asset of None \<Rightarrow> (None, s) | Some a \<Rightarrow> (Some (typeface a), s))
      | None \<Rightarrow>
          (let s1 = s\<lparr>trace := trace s @ [Fetch path]\<rparr> in
           case GetAsBuffer c path of
             None \<Rightarrow> (None, s1\<lparr>typeface_cache := cache_insert (typeface_cache s1) path None\<rparr>)
           | Some buf \<Rightarrow>
               (let s2 = s1\<lparr>trace := trace s1 @ [Construct buf]\<rparr> in
                case createFromStream c buf of
                  None \<Rightarrow>
                    (None, s2\<lparr>typeface_cache := cache_insert (typeface_cache s2) path None\<rparr>)
                | Some tf \<Rightarrow>
                    (Some tf,
                     s2\<lparr>typeface_cache :=
                          cache_insert (typeface_cache s2) path
                            (Some \<lparr>typeface = tf, data = buf\<rparr>)\<rparr>))))"

definition getTypefaceAsset ::
  "collaborators \<Rightarrow> FontDescription \<Rightarrow> string \<Rightarrow> selector \<Rightarrow> fault + (SkTypeface option \<times> selector)" where
  "getTypefaceAsset c d family_name s =
     (case font_family_map s family_name of
        None \<Rightarrow> Inr (None, s)
      | Some fonts \<Rightarrow>
          if fonts = [] then Inr (None, s)
          else
            (case selectFont d fonts of
               Inl e \<Rightarrow> Inl e
             | Inr font_iter \<Rightarrow>
                 (case array_at fonts font_iter of
                    Inl e \<Rightarrow> Inl e
                  | Inr font \<Rightarrow> Inr (resolveTypeface c (asset_path font) s))))"

text \<open>
  \<^verbatim>\<open>getFontData\<close>. \<^verbatim>\<open>font_description.style()\<close> is used as a condition, which holds
  for every member but \<^verbatim>\<open>FontStyleNormal\<close>. The platform data takes the family name as
  the C string \<^verbatim>\<open>family_name.utf8().data()\<close>. The result is a reference to a font-data
  object, or \<open>None\<close> for the null pointer.
\<close>

definition getFontData ::
  "collaborators \<Rightarrow> FontDescription \<Rightarrow> string \<Rightarrow> selector \<Rightarrow> fault + (nat option \<times> selector)" where
  "getFontData c d family_name s =
     (let key = cacheKey d family_name in
      case font_platform_data_cache s key of
        Some font_data \<Rightarrow> Inr (Some font_data, s)
      | None \<Rightarrow>
          (case getTypefaceAsset c d family_name s of
             Inl e \<Rightarrow> Inl e
           | Inr (None, s1) \<Rightarrow> Inr (None, s1)
           | Inr (Some tf, s1) \<Rightarrow>
               let synthetic_bold =
                     (FontWeight600 \<le> d_weight d \<and> \<not> isBold tf) \<or> isSyntheticBold d;
                   synthetic_italic =
                     (d_style d \<noteq> FontStyleNormal \<and> \<not> isItalic tf) \<or> isSyntheticItalic d;
                   platform_data =
                     \<lparr>pd_typeface = tf, pd_family = c_str family_name,
                      pd_textSize = effectiveFontSize d,
                      pd_syntheticBold = synthetic_bold,
                      pd_syntheticItalic = synthetic_italic,
                      pd_orientation = orientation d,
                      pd_useSubpixelPositioning = useSubpixelPositioning d\<rparr>;
                   font_data = length (font_data_heap s1)
               in Inr (Some font_data,
                       s1\<lparr>font_data_heap := font_data_heap s1 @ [platform_data],
                          font_platform_data_cache :=
                            (font_platform_data_cache s1)(key \<mapsto> font_data)\<rparr>)))"

text \<open>A sequence of \<^verbatim>\<open>getFontData\<close> calls, each with the collaborators as they answer then.\<close>

type_synonym request = "collaborators \<times> FontDescription \<times> string"

fun getFontData_calls :: "request list \<Rightarrow> selector \<Rightarrow> fault + selector" where
  "getFontData_calls [] s = Inr s"
| "getFontData_calls ((c, d, family_name) # rs) s =
     (case getFontData c d family_name s of
        Inl e \<Rightarrow> Inl e
      | Inr (r, s1) \<Rightarrow> getFontData_calls rs s1)"

section \<open>The ordering of the specification\<close>

text \<open>
  The specification orders the variants of a family by two keys: a variant whose style is
  the requested one is preferred to one whose style is not, and among variants tied on
  that, the one whose weight is nearer to the requested weight is preferred. The
  requested weight is the number that the request's \<^verbatim>\<open>FontWeight\<close> stands for. These
  definitions follow the specification's words, on unbounded integers.
\<close>

definition style_penalty :: "FontStyle \<Rightarrow> FlutterFontAttributes \<Rightarrow> nat" where
  "style_penalty rs v = (if style v = rs then 0 else 1)"

definition weight_distance :: "int \<Rightarrow> FlutterFontAttributes \<Rightarrow> int" where
  "weight_distance rw v = \<bar>sint (weight v) - rw\<bar>"

definition strictly_better ::
  "FontStyle \<Rightarrow> int \<Rightarrow> FlutterFontAttributes \<Rightarrow> FlutterFontAttributes \<Rightarrow> bool" where
  "strictly_better rs rw a b =
     (style_penalty rs a < style_penalty rs b
      \<or> (style_penalty rs a = style_penalty rs b \<and> weight_distance rw a < weight_distance rw b))"

definition requested_weight :: "FontDescription \<Rightarrow> int" where
  "requested_weight d = (if d_weight d \<le> 8 then 100 * (int (d_weight d) + 1) else 400)"

section \<open>The manifest shape of the specification\<close>

text \<open>
  The specification describes the manifest as a list of family entries; a family entry is
  an object with a \<open>family\<close> string and a \<open>fonts\<close> list; a font entry is an object with an
  \<open>asset\<close> string, which is required, and optionally a \<open>weight\<close> integer and a \<open>style\<close>
  string; the weight defaults to 400 and the style is Italic exactly for the string
  \<open>italic\<close>. The loader is compared with these definitions, which follow those words:
  \<open>family_entry\<close> gives the name and the font list of a value that is a family entry with
  both required fields, \<open>font_entry\<close> the variant of a value that is a font entry with
  its required field, and each gives \<open>None\<close> for any other value. An optional field
  counts when it has its type: the weight is the \<open>weight\<close> field when that is an integer
  and 400 in every other case.
\<close>

definition font_entry :: "Value \<Rightarrow> FlutterFontAttributes option" where
  "font_entry e =
     (case e of
        DictionaryValue kvs \<Rightarrow>
          (case map_of kvs ''asset'' of
             Some (StringValue path) \<Rightarrow>
               Some \<lparr>asset_path = path,
                     weight = (case map_of kvs ''weight'' of Some (IntegerValue n) \<Rightarrow> n | _ \<Rightarrow> 400),
                     style = (if map_of kvs ''style'' = Some (StringValue ''italic'')
                              then FontStyleItalic else FontStyleNormal)\<rparr>
           | _ \<Rightarrow> None)
      | _ \<Rightarrow> None)"

definition family_entry :: "Value \<Rightarrow> (string \<times> Value list) option" where
  "family_entry e =
     (case e of
        DictionaryValue kvs \<Rightarrow>
          (case map_of kvs ''family'' of
             Some (StringValue name) \<Rightarrow>
               (case map_of kvs ''fonts'' of
                  Some (ListValue fonts) \<Rightarrow> Some (name, fonts)
                | _ \<Rightarrow> None)
           | _ \<Rightarrow> None)
      | _ \<Rightarrow> None)"


section \<open>Notions for the proofs\<close>

text \<open>The key under which the loader stores the family of a name.\<close>

definition registry_key :: "string \<Rightarrow> string" where
  "registry_key name = AtomicString_fromUTF8 (c_str name)"

text \<open>The asset paths of the fetches in a trace, in their order.\<close>

fun fetched :: "event list \<Rightarrow> string list" where
  "fetched [] = []"
| "fetched (Fetch path # es) = path # fetched es"
| "fetched (Construct buf # es) = fetched es"


text \<open>The platform data that \<^verbatim>\<open>getFontData\<close> builds for a typeface and a request.\<close>

definition platform_data_for :: "SkTypeface \<Rightarrow> FontDescription \<Rightarrow> string \<Rightarrow> FontPlatformData" where
  "platform_data_for tf d family_name =
     \<lparr>pd_typeface = tf, pd_family = c_str family_name, pd_textSize = effectiveFontSize d,
      pd_syntheticBold = ((FontWeight600 \<le> d_weight d \<and> \<not> isBold tf) \<or> isSyntheticBold d),
      pd_syntheticItalic = ((d_style d \<noteq> FontStyleNormal \<and> \<not> isItalic tf) \<or> isSyntheticItalic d),
      pd_orientation = orientation d,
      pd_useSubpixelPositioning = useSubpixelPositioning d\<rparr>"


text \<open>
  A later state extends an earlier one: the family map is the same, and nothing stored
  in the two caches or the font-data store has changed; entries were only added.
\<close>

definition extends :: "selector \<Rightarrow> selector \<Rightarrow> bool" where
  "extends s s' \<longleftrightarrow>
     font_family_map s' = font_family_map s
     \<and> (\<forall>q a. typeface_cache s q = Some a \<longrightarrow> typeface_cache s' q = Some a)
     \<and> (\<forall>k r. font_platform_data_cache s k = Some r \<longrightarrow> font_platform_data_cache s' k = Some r)
     \<and> (\<exists>objs. font_data_heap s' = font_data_heap s @ objs)"


text \<open>
  The invariant of the font-data cache: every cached reference points to a stored
  object that was built for the request of its key from the typeface which the typeface
  cache holds for the variant selected for that request.
\<close>

definition entry_sound :: "selector \<Rightarrow> FontDescription \<Rightarrow> string \<Rightarrow> nat \<Rightarrow> bool" where
  "entry_sound s d family_name r \<longleftrightarrow>
     r < length (font_data_heap s)
     \<and> (\<exists>fonts i a. font_family_map s family_name = Some fonts \<and> fonts \<noteq> []
           \<and> selectFont d fonts = Inr i \<and> i < length fonts
           \<and> typeface_cache s (asset_path (fonts ! i)) = Some (Some a)
           \<and> font_data_heap s ! r = platform_data_for (typeface a) d family_name)"

definition cache_sound :: "selector \<Rightarrow> bool" where
  "cache_sound s \<longleftrightarrow>
     (\<forall>d family_name r. font_platform_data_cache s (cacheKey d family_name) = Some r
        \<longrightarrow> entry_sound s d family_name r)"


section \<open>Example inputs\<close>

definition example_fonts :: "FlutterFontAttributes list" where
  "example_fonts =
     [\<lparr>asset_path = ''a.ttf'', weight = 400, style = FontStyleNormal\<rparr>,
      \<lparr>asset_path = ''b.ttf'', weight = 700, style = FontStyleNormal\<rparr>,
      \<lparr>asset_path = ''c.ttf'', weight = 400, style = FontStyleItalic\<rparr>]"

definition example_request :: FontDescription where
  "example_request =
     \<lparr>d_weight = 6, d_style = FontStyleItalic, effectiveFontSize = 0,
      orientation = Horizontal, useSubpixelPositioning = False,
      isSyntheticBold = False, isSyntheticItalic = False\<rparr>"

definition no_assets :: collaborators where
  "no_assets =
     \<lparr>GetAsBuffer = (\<lambda>path. None), JSONReader_Read = (\<lambda>buf. None),
      createFromStream = (\<lambda>buf. None)\<rparr>"

definition solo_font :: FlutterFontAttributes where
  "solo_font = \<lparr>asset_path = ''solo.ttf'', weight = 400, style = FontStyleNormal\<rparr>"

definition solo_selector :: selector where
  "solo_selector = FlutterFontSelector_new\<lparr>font_family_map := [''Solo'' \<mapsto> [solo_font]]\<rparr>"

text \<open>Manifests as value trees, and bundles that serve them.\<close>

definition font_value :: "string \<Rightarrow> Value \<Rightarrow> Value" where
  "font_value path w = DictionaryValue [(''asset'', StringValue path), (''weight'', w)]"

definition family_value :: "string \<Rightarrow> Value list \<Rightarrow> Value" where
  "family_value name fonts = DictionaryValue [(''family'', StringValue name), (''fonts'', ListValue fonts)]"

definition bundle_with :: "Value \<Rightarrow> collaborators" where
  "bundle_with manifest =
     \<lparr>GetAsBuffer = (\<lambda>path. if path = kFontManifestAssetPath then Some [] else None),
      JSONReader_Read = (\<lambda>buf. Some manifest),
      createFromStream = (\<lambda>buf. None)\<rparr>"

definition roboto_manifest :: "Value list" where
  "roboto_manifest =
     [family_value ''Roboto''
        [font_value ''fonts/Roboto-Regular.ttf'' (IntegerValue 400),
         font_value ''fonts/Roboto-Bold.ttf'' (IntegerValue 700)],
      family_value ''Empty'' []]"

definition roboto_fonts :: "FlutterFontAttributes list" where
  "roboto_fonts =
     [\<lparr>asset_path = ''fonts/Roboto-Regular.ttf'', weight = 400, style = FontStyleNormal\<rparr>,
      \<lparr>asset_path = ''fonts/Roboto-Bold.ttf'', weight = 700, style = FontStyleNormal\<rparr>]"

definition roboto_bundle :: collaborators where
  "roboto_bundle =
     \<lparr>GetAsBuffer = (\<lambda>path. if path = kFontManifestAssetPath then Some []
                          else if path = ''fonts/Roboto-Bold.ttf'' then Some [1] else None),
      JSONReader_Read = (\<lambda>buf. Some (ListValue roboto_manifest)),
      createFromStream = (\<lambda>buf. Some \<lparr>uniqueID = 1, isBold = False, isItalic = False\<rparr>)\<rparr>"

definition all_assets :: collaborators where
  "all_assets =
     \<lparr>GetAsBuffer = (\<lambda>path. Some [1]), JSONReader_Read = (\<lambda>buf. None),
      createFromStream = (\<lambda>buf. Some \<lparr>uniqueID = 2, isBold = False, isItalic = False\<rparr>)\<rparr>"

definition black_italic_request :: FontDescription where
  "black_italic_request =
     \<lparr>d_weight = 8, d_style = FontStyleItalic, effectiveFontSize = 0,
      orientation = Horizontal, useSubpixelPositioning = False,
      isSyntheticBold = False, isSyntheticItalic = False\<rparr>"

definition regular_request :: FontDescription where
  "regular_request =
     \<lparr>d_weight = 3, d_style = FontStyleNormal, effectiveFontSize = 0,
      orientation = Horizontal, useSubpixelPositioning = False,
      isSyntheticBold = False, isSyntheticItalic = False\<rparr>"

definition two_entry_manifest :: "Value list" where
  "two_entry_manifest =
     [family_value ''Roboto'' [font_value ''fonts/Roboto-Regular.ttf'' (IntegerValue 400)],
      family_value ''Roboto'' [font_value ''fonts/Roboto-Bold.ttf'' (IntegerValue 700)]]"

definition repeated_family_manifest :: "Value list" where
  "repeated_family_manifest =
     [family_value ''Roboto''
        [font_value ''fonts/Roboto-Regular.ttf'' (IntegerValue 400),
         font_value ''fonts/Roboto-Medium.ttf'' (IntegerValue 500)],
      family_value ''Roboto''
        [font_value ''fonts/Roboto-Bold.ttf'' (StringValue ''bold'')]]"

definition nul_name :: string where
  "nul_name = [CHR ''A'', CHR 0x00, CHR ''B'']"

definition nul_manifest :: "Value list" where
  "nul_manifest =
     [family_value ''A'' [font_value ''a1.ttf'' (IntegerValue 400)],
      family_value ''A'' [font_value ''a2.ttf'' (IntegerValue 400)],
      family_value nul_name [font_value ''n.ttf'' (IntegerValue 400)]]"

definition mixed_manifest :: "Value list" where
  "mixed_manifest =
     [StringValue ''junk'',
      family_value ''Mixed''
        [font_value ''m1.ttf'' (IntegerValue 300),
         NullValue,
         DictionaryValue [(''asset'', StringValue ''m2.ttf''), (''style'', StringValue ''italic'')],
         DictionaryValue [(''weight'', IntegerValue 700)]]]"


section \<open>Properties\<close>

lemma kFontWeightNormal_eq: "kFontWeightNormal = 400"
  by (simp add: kFontWeightNormal_def kFontWeightValue_def FontWeightNormal_def)

lemma getFontWeightValue_in_table:
  "w < 9 \<Longrightarrow> getFontWeightValue w = Inr (kFontWeightValue ! w)"
  by (simp add: getFontWeightValue_def array_at_def kFontWeightValue_def)

lemma getFontWeightValue_fallback:
  "9 \<le> w \<Longrightarrow> getFontWeightValue w = Inr 400"
  by (simp add: getFontWeightValue_def kFontWeightValue_def kFontWeightNormal_def
      FontWeightNormal_def)

lemma getFontWeightValue_eq:
  "getFontWeightValue v = Inr (if v \<le> 8 then word_of_nat (100 * (v + 1)) else 400)"
proof (cases "v \<le> 8")
  case True
  then have "v \<in> {0, 1, 2, 3, 4, 5, 6, 7, 8}"
    by auto
  then show ?thesis
    by (auto simp: getFontWeightValue_def array_at_def kFontWeightValue_def)
next
  case False
  then show ?thesis
    by (simp add: getFontWeightValue_fallback)
qed

lemma FontMatcher_new_target:
  "\<exists>t. FontMatcher_new d = Inr \<lparr>description = d, target_weight = t\<rparr>
       \<and> sint t = requested_weight d \<and> 100 \<le> sint t \<and> sint t \<le> 900"
proof (cases "d_weight d \<le> 8")
  case True
  then have "d_weight d \<in> {0, 1, 2, 3, 4, 5, 6, 7, 8}"
    by auto
  then show ?thesis
    by (auto simp: FontMatcher_new_def getFontWeightValue_eq requested_weight_def)
next
  case False
  then show ?thesis
    by (simp add: FontMatcher_new_def getFontWeightValue_eq requested_weight_def)
qed

subsection \<open>The weight table is read in range\<close>

text \<open>
  Claim C10. The conversion from the \<^verbatim>\<open>FontWeight\<close> enum to the numeric target weight
  never reads outside the table and always gives a value: for the enum values 0 to 8 it
  is the value 100, 200, ..., 900 of the scale, for every value from 9 on it is 400; so
  building the matcher, which looks the target weight up, is defined for every
  description.
\<close>

theorem getFontWeightValue_total:
  "getFontWeightValue w = Inr (if w \<le> 8 then word_of_nat (100 * (w + 1)) else 400)
   \<and> (\<exists>m. FontMatcher_new d = Inr m)"
  using FontMatcher_new_target [of d] by (auto simp: getFontWeightValue_eq)

subsection \<open>The matcher on 32-bit weights\<close>

text \<open>
  The subtraction and \<^verbatim>\<open>abs\<close> of the matcher give the distance of the specification as
  long as neither wraps around: the target is on the scale, so a weight from
  \<open>- 2147482747\<close> on is enough.
\<close>

lemma sint_sub_int32:
  fixes a t :: int32
  assumes "- 2147483648 \<le> sint a - sint t" "sint a - sint t < 2147483648"
  shows "sint (a - t) = sint a - sint t"
proof -
  have "sint (a - t) = signed_take_bit 31 (sint a - sint t)"
    by (simp add: sint_word_ariths)
  also have "\<dots> = sint a - sint t"
    using assms by (intro signed_take_bit_int_eq_self) simp_all
  finally show ?thesis .
qed

lemma sint_abs_int32:
  fixes x :: int32
  assumes "- 2147483648 < sint x"
  shows "sint (abs_int32 x) = \<bar>sint x\<bar>"
proof (cases "sint x < 0")
  case True
  have "sint (- x) = signed_take_bit 31 (- sint x)"
    by (simp add: sint_word_ariths)
  also have "\<dots> = - sint x"
    using assms True by (intro signed_take_bit_int_eq_self) simp_all
  finally show ?thesis
    using True by (simp add: abs_int32_def word_sless_alt)
next
  case False
  then show ?thesis
    by (simp add: abs_int32_def word_sless_alt)
qed

lemma sint_delta:
  fixes a t :: int32
  assumes "- 2147482747 \<le> sint a" "100 \<le> sint t" "sint t \<le> 900"
  shows "sint (abs_int32 (a - t)) = \<bar>sint a - sint t\<bar>"
proof -
  have "sint a < 2147483648"
    using sint_lt [of a] by simp
  then have "sint (a - t) = sint a - sint t"
    using assms by (intro sint_sub_int32) simp_all
  moreover from this have "- 2147483648 < sint (a - t)"
    using assms by simp
  ultimately show ?thesis
    by (simp add: sint_abs_int32)
qed

lemma FontMatcher_call_iff:
  assumes "- 2147482747 \<le> sint (weight a)" "- 2147482747 \<le> sint (weight b)"
    and "100 \<le> sint t" "sint t \<le> 900"
  shows "FontMatcher_call \<lparr>description = d, target_weight = t\<rparr> a b
         \<longleftrightarrow> strictly_better (d_style d) (sint t) a b"
proof -
  have da: "sint (abs_int32 (weight a - t)) = weight_distance (sint t) a"
    using assms by (simp add: sint_delta weight_distance_def)
  have db: "sint (abs_int32 (weight b - t)) = weight_distance (sint t) b"
    using assms by (simp add: sint_delta weight_distance_def)
  show ?thesis
    by (cases "style a"; cases "style b"; cases "d_style d")
      (simp_all add: FontMatcher_call_def Let_def strictly_better_def style_penalty_def
        word_sless_alt da db)
qed

lemma strictly_better_key:
  "strictly_better rs rw a b
   \<longleftrightarrow> (style_penalty rs a, weight_distance rw a) < (style_penalty rs b, weight_distance rw b)"
  by (auto simp: strictly_better_def less_prod_def)

subsection \<open>The scan of \<open>min_element\<close>\<close>

text \<open>
  The scan keeps a position in range whatever the comparison is; when the comparison is
  the strict order of a key, the position it ends on holds a least key and is the first
  to do so.
\<close>

lemma min_element_loop_bound:
  "smallest < length xs \<Longrightarrow> min_element_loop cmp xs i smallest < length xs"
proof (induction cmp xs i smallest rule: min_element_loop.induct)
  case (1 cmp xs i smallest)
  show ?case
  proof (cases "i < length xs")
    case True
    let ?s = "if cmp (xs ! i) (xs ! smallest) then i else smallest"
    have step: "min_element_loop cmp xs i smallest = min_element_loop cmp xs (Suc i) ?s"
      using True by (subst min_element_loop.simps) simp
    have "?s < length xs"
      using True "1.prems" by simp
    then show ?thesis
      unfolding step by (rule "1.IH" [OF True])
  next
    case False
    then have "min_element_loop cmp xs i smallest = smallest"
      by (subst min_element_loop.simps) simp
    with "1.prems" show ?thesis
      by simp
  qed
qed

lemma min_element_loop_least:
  fixes key :: "'a \<Rightarrow> 'k::linorder"
  assumes "\<And>a b. a \<in> set xs \<Longrightarrow> b \<in> set xs \<Longrightarrow> cmp a b \<longleftrightarrow> key a < key b"
    and "smallest < i" "i \<le> length xs"
    and "\<forall>j < i. key (xs ! smallest) \<le> key (xs ! j)"
    and "\<forall>j < smallest. key (xs ! smallest) < key (xs ! j)"
  shows "min_element_loop cmp xs i smallest < length xs
     \<and> (\<forall>j < length xs. key (xs ! min_element_loop cmp xs i smallest) \<le> key (xs ! j))
     \<and> (\<forall>j < min_element_loop cmp xs i smallest.
           key (xs ! min_element_loop cmp xs i smallest) < key (xs ! j))"
  using assms
proof (induction cmp xs i smallest rule: min_element_loop.induct)
  case (1 cmp xs i smallest)
  note cmp_key = "1.prems"(1)
  note inv = "1.prems"(2-)
  show ?case
  proof (cases "i < length xs")
    case False
    then have stop: "min_element_loop cmp xs i smallest = smallest"
      by (subst min_element_loop.simps) simp
    from False inv have "i = length xs"
      by simp
    with inv show ?thesis
      unfolding stop by simp
  next
    case True
    let ?s = "if cmp (xs ! i) (xs ! smallest) then i else smallest"
    have cmp_iff: "cmp (xs ! i) (xs ! smallest) \<longleftrightarrow> key (xs ! i) < key (xs ! smallest)"
      using True inv by (intro cmp_key) simp_all
    have A: "?s < Suc i"
      using inv by simp
    have B: "Suc i \<le> length xs"
      using True by simp
    have C: "\<forall>j < Suc i. key (xs ! ?s) \<le> key (xs ! j)"
      using inv cmp_iff by (auto simp: less_Suc_eq)
    have D: "\<forall>j < ?s. key (xs ! ?s) < key (xs ! j)"
      using inv cmp_iff by auto
    have step: "min_element_loop cmp xs i smallest = min_element_loop cmp xs (Suc i) ?s"
      using True by (subst min_element_loop.simps) simp
    show ?thesis
      unfolding step by (rule "1.IH" [OF True cmp_key A B C D])
  qed
qed

lemma selectFont_in_range:
  assumes "fonts \<noteq> []"
  shows "\<exists>i. selectFont d fonts = Inr i \<and> i < length fonts"
proof (cases "length fonts = 1")
  case True
  then show ?thesis
    by (simp add: selectFont_def)
next
  case False
  obtain t where "FontMatcher_new d = Inr \<lparr>description = d, target_weight = t\<rparr>"
    using FontMatcher_new_target [of d] by blast
  moreover have "min_element_loop cmp fonts 1 0 < length fonts" for cmp
    using assms by (intro min_element_loop_bound) simp
  ultimately show ?thesis
    using False assms by (simp add: selectFont_def min_element_def)
qed

subsection \<open>The variant the matcher selects\<close>

text \<open>
  Where the matcher's 32-bit subtraction and \<^verbatim>\<open>abs\<close> cannot overflow, the selection is the
  first minimum of the specification's order. For every family variant list with at least
  two elements whose weights are all at least \<open>- 2147482747\<close>, which every weight of the
  scale 100 to 900 is, and for every style request, the selection yields a position of the
  list; no variant of the list is strictly better than the selected one in the two-key
  order (style mismatch first, then the absolute distance to the requested weight), and
  every variant before it is strictly worse. In particular, for the variants
  (400, Normal), (700, Normal), (400, Italic) and the request (700, Italic), the Italic
  variant at position 2 is selected.
\<close>

theorem selectFont_lexicographic_minimum:
  assumes "2 \<le> length fonts" and "\<forall>v \<in> set fonts. - 2147482747 \<le> sint (weight v)"
  shows "(\<exists>i. selectFont d fonts = Inr i \<and> i < length fonts
           \<and> (\<forall>j < length fonts.
                 \<not> strictly_better (d_style d) (requested_weight d) (fonts ! j) (fonts ! i))
           \<and> (\<forall>j < i. strictly_better (d_style d) (requested_weight d) (fonts ! i) (fonts ! j)))
         \<and> selectFont example_request example_fonts = Inr 2"
proof -
  obtain t where m: "FontMatcher_new d = Inr \<lparr>description = d, target_weight = t\<rparr>"
    and t: "sint t = requested_weight d" "100 \<le> sint t" "sint t \<le> 900"
    using FontMatcher_new_target [of d] by blast
  let ?cmp = "FontMatcher_call \<lparr>description = d, target_weight = t\<rparr>"
  let ?key = "\<lambda>v. (style_penalty (d_style d) v, weight_distance (requested_weight d) v)"
  let ?r = "min_element_loop ?cmp fonts 1 0"
  have cmp_key: "?cmp a b \<longleftrightarrow> ?key a < ?key b" if "a \<in> set fonts" "b \<in> set fonts" for a b
    using that assms(2) t FontMatcher_call_iff [of a b t d]
    by (simp add: strictly_better_key)
  have len: "(0::nat) < 1" "(1::nat) \<le> length fonts"
    using assms(1) by simp_all
  have init1: "\<forall>j < (1::nat). ?key (fonts ! 0) \<le> ?key (fonts ! j)"
    by simp
  have init2: "\<forall>j < (0::nat). ?key (fonts ! 0) < ?key (fonts ! j)"
    by simp
  have least: "?r < length fonts \<and> (\<forall>j < length fonts. ?key (fonts ! ?r) \<le> ?key (fonts ! j))
        \<and> (\<forall>j < ?r. ?key (fonts ! ?r) < ?key (fonts ! j))"
    by (rule min_element_loop_least [where key = ?key, OF cmp_key len init1 init2])
  have r1: "?r < length fonts"
    using least by blast
  have r2: "\<forall>j < length fonts.
      \<not> strictly_better (d_style d) (requested_weight d) (fonts ! j) (fonts ! ?r)"
    unfolding strictly_better_key not_less using least by blast
  have r3: "\<forall>j < ?r. strictly_better (d_style d) (requested_weight d) (fonts ! ?r) (fonts ! j)"
    unfolding strictly_better_key using least by blast
  have "fonts \<noteq> []" "length fonts \<noteq> 1"
    using assms(1) by auto
  then have "selectFont d fonts = Inr ?r"
    by (simp add: selectFont_def min_element_def m)
  moreover have "selectFont example_request example_fonts = Inr 2"
    by code_simp
  ultimately show ?thesis
    using r1 r2 r3 by blast
qed

theorem selectFont_lexicographic_minimum_witness:
  "2 \<le> length example_fonts
   \<and> list_all (\<lambda>v. - 2147482747 \<le> sint (weight v)) example_fonts
   \<and> selectFont example_request example_fonts = Inr 2
   \<and> \<not> strictly_better FontStyleItalic 700 (example_fonts ! 1) (example_fonts ! 2)
   \<and> weight_distance 700 (example_fonts ! 1) = 0
   \<and> weight_distance 700 (example_fonts ! 2) = 300"
proof -
  have h1: "2 \<le> length example_fonts"
    by (simp add: example_fonts_def)
  have h2: "\<forall>v \<in> set example_fonts. - 2147482747 \<le> sint (weight v)"
    by (simp add: example_fonts_def)
  have rw: "requested_weight example_request = 700" "d_style example_request = FontStyleItalic"
    by (simp_all add: example_request_def requested_weight_def)
  from selectFont_lexicographic_minimum [OF h1 h2, of example_request]
  have sel: "selectFont example_request example_fonts = Inr 2"
    and all_j: "\<forall>j < length example_fonts.
           \<not> strictly_better FontStyleItalic 700 (example_fonts ! j) (example_fonts ! 2)"
    by (auto simp: rw)
  have "(1::nat) < length example_fonts"
    by (simp add: example_fonts_def)
  with all_j have "\<not> strictly_better FontStyleItalic 700 (example_fonts ! 1) (example_fonts ! 2)"
    by blast
  moreover have "weight_distance 700 (example_fonts ! 1) = 0"
    "weight_distance 700 (example_fonts ! 2) = 300"
    by (simp_all add: example_fonts_def weight_distance_def)
  ultimately show ?thesis
    using h1 h2 sel by (simp add: list_all_iff)
qed

text \<open>
  Claim C1. For every family variant list with at least two elements and every style
  request, the matcher is to select the first minimum of the two-key order (style
  mismatch first, then the absolute distance to the requested weight), a variant of the
  list that no other variant strictly dominates. The code computes the distance as
  \<^verbatim>\<open>abs(font.weight - target_weight_)\<close> in \<^verbatim>\<open>int\<close> and misses the overflow: a weight is
  read from the manifest without a range check, and with the request (400, Normal) and
  the variants of weight 400 and \<open>- 2147483248\<close>, both Normal, the difference
  \<open>- 2147483248 - 400\<close> is the least \<^verbatim>\<open>int\<close>, whose \<^verbatim>\<open>abs\<close> overflows and, wrapping
  around, is that least value again; so the second variant is selected although the
  first, an exact match, is strictly better.
\<close>

theorem selectFont_overflow_failing_input:
  "selectFont
     \<lparr>d_weight = 3, d_style = FontStyleNormal, effectiveFontSize = 0,
      orientation = Horizontal, useSubpixelPositioning = False,
      isSyntheticBold = False, isSyntheticItalic = False\<rparr>
     [\<lparr>asset_path = ''a.ttf'', weight = 400, style = FontStyleNormal\<rparr>,
      \<lparr>asset_path = ''b.ttf'', weight = - 2147483248, style = FontStyleNormal\<rparr>] = Inr 1
   \<and> strictly_better FontStyleNormal 400
        \<lparr>asset_path = ''a.ttf'', weight = 400, style = FontStyleNormal\<rparr>
        \<lparr>asset_path = ''b.ttf'', weight = - 2147483248, style = FontStyleNormal\<rparr>"
  by code_simp

subsection \<open>A family of one font\<close>

text \<open>
  Claim C9. For a family whose variant list has exactly one element, that element is
  selected for every requested weight and style, also when the styles differ: the
  selection is position 0 without a matcher being built or applied, and
  \<^verbatim>\<open>getTypefaceAsset\<close> resolves the asset path of the sole variant.
\<close>

theorem selectFont_single_variant:
  assumes "font_family_map s family_name = Some [v]"
  shows "selectFont d [v] = Inr 0
         \<and> getTypefaceAsset c d family_name s = Inr (resolveTypeface c (asset_path v) s)"
  using assms by (simp add: selectFont_def getTypefaceAsset_def array_at_def)

theorem selectFont_single_variant_witness:
  "font_family_map solo_selector ''Solo'' = Some [solo_font]
   \<and> style solo_font \<noteq> d_style example_request
   \<and> selectFont example_request [solo_font] = Inr 0
   \<and> getTypefaceAsset no_assets example_request ''Solo'' solo_selector
       = Inr (resolveTypeface no_assets (asset_path solo_font) solo_selector)"
proof -
  have h: "font_family_map solo_selector ''Solo'' = Some [solo_font]"
    by (simp add: solo_selector_def)
  have "style solo_font \<noteq> d_style example_request"
    by (simp add: solo_font_def example_request_def)
  with h selectFont_single_variant [OF h, of example_request no_assets] show ?thesis
    by simp
qed

subsection \<open>The manifest loader against the specification's shape\<close>

lemma parse_font_eq:
  "parse_font acc e = acc @ (case font_entry e of None \<Rightarrow> [] | Some v \<Rightarrow> [v])"
  by (simp add: parse_font_def font_entry_def GetAsDictionary_def GetString_def GetInteger_def
      FlutterFontAttributes_new_def kFontWeightNormal_eq
      split: Value.splits option.splits)

lemma foldl_parse_font_eq:
  "foldl parse_font acc fonts = acc @ List.map_filter font_entry fonts"
  by (induction fonts arbitrary: acc) (simp_all add: parse_font_eq List.map_filter_simps split: option.splits)

lemma registry_key_plain:
  "CHR 0x00 \<notin> set name \<Longrightarrow> registry_key name = name"
  by (auto simp: registry_key_def AtomicString_fromUTF8_def c_str_def takeWhile_eq_all_conv)

lemma parse_family_eq:
  "parse_family m e =
     (case family_entry e of
        None \<Rightarrow> m
      | Some (name, fonts) \<Rightarrow> m(registry_key name \<mapsto> List.map_filter font_entry fonts))"
  by (simp add: parse_family_def family_entry_def GetAsDictionary_def GetString_def GetList_def
      foldl_parse_font_eq registry_key_def Let_def split: Value.splits option.splits)

lemma foldl_parse_family_other:
  assumes "\<forall>e \<in> set es. map_option (registry_key \<circ> fst) (family_entry e) \<noteq> Some key"
  shows "foldl parse_family m es key = m key"
  using assms
  by (induction es arbitrary: m) (auto simp: parse_family_eq split: option.splits)

lemma foldl_parse_family_last:
  assumes "i < length es" and "family_entry (es ! i) = Some (name, fonts)"
    and "\<forall>j. i < j \<and> j < length es
           \<longrightarrow> map_option (registry_key \<circ> fst) (family_entry (es ! j)) \<noteq> Some (registry_key name)"
  shows "foldl parse_family m es (registry_key name) = Some (List.map_filter font_entry fonts)"
proof -
  have split: "es = take i es @ es ! i # drop (Suc i) es"
    using assms(1) by (simp add: id_take_nth_drop)
  have later: "\<forall>e \<in> set (drop (Suc i) es).
      map_option (registry_key \<circ> fst) (family_entry e) \<noteq> Some (registry_key name)"
  proof
    fix e
    assume "e \<in> set (drop (Suc i) es)"
    then obtain k where "k < length es - Suc i" "e = es ! (Suc i + k)"
      by (auto simp: in_set_conv_nth)
    with assms(3) show "map_option (registry_key \<circ> fst) (family_entry e) \<noteq> Some (registry_key name)"
      by simp
  qed
  have "foldl parse_family m es (registry_key name)
        = foldl parse_family (parse_family (foldl parse_family m (take i es)) (es ! i))
            (drop (Suc i) es) (registry_key name)"
    by (subst split) simp
  also have "\<dots> = parse_family (foldl parse_family m (take i es)) (es ! i) (registry_key name)"
    by (rule foldl_parse_family_other [OF later])
  also have "\<dots> = Some (List.map_filter font_entry fonts)"
    by (simp add: parse_family_eq assms(2))
  finally show ?thesis .
qed

lemma install_registry:
  assumes "GetAsBuffer c kFontManifestAssetPath = Some buf"
    and "JSONReader_Read c buf = Some (ListValue family_list)"
  shows "font_family_map (install c) = foldl parse_family Map.empty family_list"
  using assms
  by (simp add: install_def parseFontManifest_def FlutterFontSelector_new_def GetAsList_def)

lemma install_no_registry:
  assumes "GetAsBuffer c kFontManifestAssetPath = None
           \<or> (\<exists>buf. GetAsBuffer c kFontManifestAssetPath = Some buf
                 \<and> (JSONReader_Read c buf = None
                     \<or> (\<exists>json. JSONReader_Read c buf = Some json \<and> GetAsList json = None)))"
  shows "install c = FlutterFontSelector_new\<lparr>trace := [Fetch kFontManifestAssetPath]\<rparr>"
  using assms
  by (auto simp: install_def parseFontManifest_def FlutterFontSelector_new_def)

lemma install_caches:
  "typeface_cache (install c) = Map.empty"
  "font_platform_data_cache (install c) = Map.empty"
  "font_data_heap (install c) = []"
  "trace (install c) = [Fetch kFontManifestAssetPath]"
  by (simp_all add: install_def parseFontManifest_def FlutterFontSelector_new_def Let_def
      split: option.splits)

lemma bundle_with_manifest:
  "GetAsBuffer (bundle_with v) kFontManifestAssetPath = Some []"
  "JSONReader_Read (bundle_with v) [] = Some v"
  by (simp_all add: bundle_with_def)

lemma two_entry_facts:
  "family_entry (two_entry_manifest ! 0)
   = Some (''Roboto'', [font_value ''fonts/Roboto-Regular.ttf'' (IntegerValue 400)])"
  "family_entry (two_entry_manifest ! 1)
   = Some (''Roboto'', [font_value ''fonts/Roboto-Bold.ttf'' (IntegerValue 700)])"
  "length two_entry_manifest = 2"
  by (simp_all add: two_entry_manifest_def family_value_def family_entry_def)

lemma parse_font_value:
  "foldl parse_font [] [font_value path (IntegerValue n)]
   = [\<lparr>asset_path = path, weight = n, style = FontStyleNormal\<rparr>]"
  by (simp add: parse_font_eq font_entry_def font_value_def)

lemma mixed_facts:
  "length mixed_manifest = 2"
  "family_entry (mixed_manifest ! 0) = None"
  "family_entry (mixed_manifest ! 1)
   = Some (''Mixed'',
       [font_value ''m1.ttf'' (IntegerValue 300),
        NullValue,
        DictionaryValue [(''asset'', StringValue ''m2.ttf''), (''style'', StringValue ''italic'')],
        DictionaryValue [(''weight'', IntegerValue 700)]])"
  by (simp_all add: mixed_manifest_def family_value_def family_entry_def)

lemma mixed_fonts:
  "List.map_filter font_entry
     [font_value ''m1.ttf'' (IntegerValue 300),
      NullValue,
      DictionaryValue [(''asset'', StringValue ''m2.ttf''), (''style'', StringValue ''italic'')],
      DictionaryValue [(''weight'', IntegerValue 700)]]
   = [\<lparr>asset_path = ''m1.ttf'', weight = 300, style = FontStyleNormal\<rparr>,
      \<lparr>asset_path = ''m2.ttf'', weight = 400, style = FontStyleItalic\<rparr>]"
  by (simp add: List.map_filter_simps font_entry_def font_value_def)


lemma nul_facts:
  "length nul_manifest = 3"
  "family_entry (nul_manifest ! 1) = Some (''A'', [font_value ''a2.ttf'' (IntegerValue 400)])"
  "family_entry (nul_manifest ! 2) = Some (nul_name, [font_value ''n.ttf'' (IntegerValue 400)])"
  "registry_key nul_name = ''A''"
  "registry_key ''A'' = ''A''"
  by (simp_all add: nul_manifest_def nul_name_def family_value_def family_entry_def
      registry_key_def AtomicString_fromUTF8_def c_str_def)

lemma example_keys:
  "registry_key ''Roboto'' = ''Roboto''" "registry_key ''Mixed'' = ''Mixed''"
  by (simp_all add: registry_key_plain)

lemma font_entry_value:
  "List.map_filter font_entry [font_value path (IntegerValue n)]
   = [\<lparr>asset_path = path, weight = n, style = FontStyleNormal\<rparr>]"
  by (simp add: List.map_filter_simps font_entry_def font_value_def)

subsection \<open>A family name listed twice\<close>

text \<open>
  Claim C5, as amended. The loader stores a family under the key made from its name
  read as a C string, which is the name itself unless it holds a NUL and the part before
  the first NUL otherwise. When the manifest lists two entries whose names have the same
  key, in particular the same family name twice, the later entry replaces the earlier
  one: \<^verbatim>\<open>font_family_map_.set\<close> stores a fresh empty vector under the key before the
  fonts of an entry are pushed, so after loading the variant list under that key is
  exactly what is parsed from the fonts of the last entry with that key, in parse order,
  and holds nothing of the earlier entry.
\<close>

theorem repeated_family_replaced:
  assumes "GetAsBuffer c kFontManifestAssetPath = Some buf"
    and "JSONReader_Read c buf = Some (ListValue family_list)"
    and "i < j" and "j < length family_list"
    and "family_entry (family_list ! i) = Some (name1, fonts1)"
    and "family_entry (family_list ! j) = Some (name2, fonts2)"
    and "registry_key name1 = registry_key name2"
    and "\<forall>k. j < k \<and> k < length family_list
           \<longrightarrow> map_option (registry_key \<circ> fst) (family_entry (family_list ! k))
               \<noteq> Some (registry_key name2)"
  shows "font_family_map (install c) (registry_key name2) = Some (foldl parse_font [] fonts2)
         \<and> (CHR 0x00 \<notin> set name2 \<longrightarrow> registry_key name2 = name2)"
  using foldl_parse_family_last [OF assms(4,6,8)]
  by (simp add: install_registry [OF assms(1,2)] foldl_parse_font_eq registry_key_plain)

theorem repeated_family_replaced_witness:
  "family_entry (two_entry_manifest ! 0)
     = Some (''Roboto'', [font_value ''fonts/Roboto-Regular.ttf'' (IntegerValue 400)])
   \<and> family_entry (two_entry_manifest ! 1)
     = Some (''Roboto'', [font_value ''fonts/Roboto-Bold.ttf'' (IntegerValue 700)])
   \<and> font_family_map (install (bundle_with (ListValue two_entry_manifest))) ''Roboto''
     = Some [\<lparr>asset_path = ''fonts/Roboto-Bold.ttf'', weight = 700, style = FontStyleNormal\<rparr>]
   \<and> family_entry (nul_manifest ! 1) = Some (''A'', [font_value ''a2.ttf'' (IntegerValue 400)])
   \<and> family_entry (nul_manifest ! 2)
     = Some (nul_name, [font_value ''n.ttf'' (IntegerValue 400)])
   \<and> registry_key nul_name = ''A''
   \<and> font_family_map (install (bundle_with (ListValue nul_manifest))) ''A''
     = Some [\<lparr>asset_path = ''n.ttf'', weight = 400, style = FontStyleNormal\<rparr>]"
proof -
  have last: "\<forall>k. 1 < k \<and> k < length two_entry_manifest
      \<longrightarrow> map_option (registry_key \<circ> fst) (family_entry (two_entry_manifest ! k))
          \<noteq> Some (registry_key ''Roboto'')"
    using two_entry_facts(3) by auto
  have "(0::nat) < 1" "1 < length two_entry_manifest"
    by (simp_all add: two_entry_facts)
  from repeated_family_replaced [OF bundle_with_manifest this two_entry_facts(1,2) refl last]
  have "font_family_map (install (bundle_with (ListValue two_entry_manifest)))
          (registry_key ''Roboto'')
      = Some (foldl parse_font [] [font_value ''fonts/Roboto-Bold.ttf'' (IntegerValue 700)])"
    by (rule conjunct1)
  then have roboto: "font_family_map (install (bundle_with (ListValue two_entry_manifest))) ''Roboto''
      = Some [\<lparr>asset_path = ''fonts/Roboto-Bold.ttf'', weight = 700, style = FontStyleNormal\<rparr>]"
    unfolding parse_font_value example_keys .
  have nul_last: "\<forall>k. 2 < k \<and> k < length nul_manifest
      \<longrightarrow> map_option (registry_key \<circ> fst) (family_entry (nul_manifest ! k))
          \<noteq> Some (registry_key nul_name)"
    using nul_facts(1) by auto
  have same_key: "registry_key ''A'' = registry_key nul_name"
    by (simp add: nul_facts)
  have "(1::nat) < 2" "2 < length nul_manifest"
    by (simp_all add: nul_facts)
  from repeated_family_replaced [OF bundle_with_manifest this nul_facts(2,3) same_key nul_last]
  have "font_family_map (install (bundle_with (ListValue nul_manifest))) (registry_key nul_name)
      = Some (foldl parse_font [] [font_value ''n.ttf'' (IntegerValue 400)])"
    by (rule conjunct1)
  then have nul: "font_family_map (install (bundle_with (ListValue nul_manifest))) ''A''
      = Some [\<lparr>asset_path = ''n.ttf'', weight = 400, style = FontStyleNormal\<rparr>]"
    unfolding parse_font_value nul_facts(4) .
  show ?thesis
    by (intro conjI two_entry_facts(1) two_entry_facts(2) roboto nul_facts(2) nul_facts(3)
        nul_facts(4) nul)
qed

text \<open>
  The claim as stated, that the later entry's variants are appended to those of the
  earlier entry, fails: for a manifest with the entries Roboto [Regular 400] and
  Roboto [Bold 700] the loaded family holds the Bold variant alone.
\<close>

theorem repeated_family_counterexample:
  "font_family_map (install (bundle_with (ListValue two_entry_manifest))) ''Roboto''
     = Some [\<lparr>asset_path = ''fonts/Roboto-Bold.ttf'', weight = 700, style = FontStyleNormal\<rparr>]
   \<and> font_family_map (install (bundle_with (ListValue two_entry_manifest))) ''Roboto''
     \<noteq> Some [\<lparr>asset_path = ''fonts/Roboto-Regular.ttf'', weight = 400, style = FontStyleNormal\<rparr>,
              \<lparr>asset_path = ''fonts/Roboto-Bold.ttf'', weight = 700, style = FontStyleNormal\<rparr>]"
  by (simp add: install_def parseFontManifest_def FlutterFontSelector_new_def GetAsList_def
      bundle_with_def two_entry_manifest_def family_value_def font_value_def
      parse_family_def parse_font_def GetAsDictionary_def GetString_def GetList_def GetInteger_def
      FlutterFontAttributes_new_def kFontWeightNormal_eq c_str_def AtomicString_fromUTF8_def
      Let_def)

subsection \<open>Entries of the manifest\<close>

text \<open>
  Claim C6, as amended. For every manifest whose bytes the reader turns into a list: a
  family entry that is not an object, or lacks a \<open>family\<close> string or a \<open>fonts\<close> list,
  leaves the registry as it is, and a font entry that is not an object or lacks an \<open>asset\<close>
  string adds no variant; neither is an error. A family is stored under the key made from
  its name read as a C string: the name itself unless it holds a NUL, and the part before
  the first NUL otherwise. Every family entry that no later entry with the same key
  follows produces the registry entry of its key, whose variants are those of its valid
  font entries in order, so their count is the number of valid font entries (an earlier
  entry of a repeated key is replaced). Each valid font entry yields a variant with its
  asset path, the weight given as an integer and 400 otherwise, and the style Italic
  exactly when the style is the string \<open>italic\<close>.
\<close>

theorem manifest_entries_parsed:
  assumes "GetAsBuffer c kFontManifestAssetPath = Some buf"
    and "JSONReader_Read c buf = Some (ListValue family_list)"
    and "i < length family_list"
    and "family_entry (family_list ! i) = Some (name, fonts)"
    and "\<forall>k. i < k \<and> k < length family_list
           \<longrightarrow> map_option (registry_key \<circ> fst) (family_entry (family_list ! k))
               \<noteq> Some (registry_key name)"
  shows "font_family_map (install c) (registry_key name) = Some (List.map_filter font_entry fonts)
         \<and> length (List.map_filter font_entry fonts)
             = length (filter (\<lambda>e. font_entry e \<noteq> None) fonts)
         \<and> (CHR 0x00 \<notin> set name \<longrightarrow> registry_key name = name)
         \<and> parse_font family_assets list_entry
             = family_assets @ (case font_entry list_entry of None \<Rightarrow> [] | Some v \<Rightarrow> [v])
         \<and> parse_family family_map family
             = (case family_entry family of
                  None \<Rightarrow> family_map
                | Some (family_name, font_list) \<Rightarrow>
                    family_map(registry_key family_name \<mapsto> List.map_filter font_entry font_list))"
proof -
  have "font_family_map (install c) (registry_key name) = Some (List.map_filter font_entry fonts)"
    using foldl_parse_family_last [OF assms(3-5)]
    by (simp add: install_registry [OF assms(1,2)])
  moreover have "length (List.map_filter font_entry fonts)
      = length (filter (\<lambda>e. font_entry e \<noteq> None) fonts)"
    by (simp add: List.map_filter_def)
  ultimately show ?thesis
    by (simp add: parse_font_eq parse_family_eq registry_key_plain)
qed

theorem manifest_entries_parsed_witness:
  "family_entry (mixed_manifest ! 0) = None
   \<and> parse_family Map.empty (mixed_manifest ! 0) = Map.empty
   \<and> font_family_map (install (bundle_with (ListValue mixed_manifest))) ''Mixed''
       = Some [\<lparr>asset_path = ''m1.ttf'', weight = 300, style = FontStyleNormal\<rparr>,
               \<lparr>asset_path = ''m2.ttf'', weight = 400, style = FontStyleItalic\<rparr>]
   \<and> family_entry (nul_manifest ! 2)
       = Some (nul_name, [font_value ''n.ttf'' (IntegerValue 400)])
   \<and> registry_key nul_name = ''A''
   \<and> font_family_map (install (bundle_with (ListValue nul_manifest))) ''A''
       = Some [\<lparr>asset_path = ''n.ttf'', weight = 400, style = FontStyleNormal\<rparr>]"
proof -
  have last: "\<forall>k. 1 < k \<and> k < length mixed_manifest
      \<longrightarrow> map_option (registry_key \<circ> fst) (family_entry (mixed_manifest ! k))
          \<noteq> Some (registry_key ''Mixed'')"
    using mixed_facts(1) by auto
  have "1 < length mixed_manifest"
    by (simp add: mixed_facts)
  note parsed = manifest_entries_parsed [OF bundle_with_manifest this mixed_facts(3) last,
      of "[]" NullValue Map.empty "mixed_manifest ! 0"]
  from parsed have "font_family_map (install (bundle_with (ListValue mixed_manifest)))
        (registry_key ''Mixed'')
      = Some [\<lparr>asset_path = ''m1.ttf'', weight = 300, style = FontStyleNormal\<rparr>,
              \<lparr>asset_path = ''m2.ttf'', weight = 400, style = FontStyleItalic\<rparr>]"
    unfolding mixed_fonts by (rule conjunct1)
  then have mixed: "font_family_map (install (bundle_with (ListValue mixed_manifest))) ''Mixed''
      = Some [\<lparr>asset_path = ''m1.ttf'', weight = 300, style = FontStyleNormal\<rparr>,
              \<lparr>asset_path = ''m2.ttf'', weight = 400, style = FontStyleItalic\<rparr>]"
    unfolding example_keys .
  from parsed have skipped: "parse_family Map.empty (mixed_manifest ! 0) = Map.empty"
    unfolding mixed_facts(2) by simp
  have nul_last: "\<forall>k. 2 < k \<and> k < length nul_manifest
      \<longrightarrow> map_option (registry_key \<circ> fst) (family_entry (nul_manifest ! k))
          \<noteq> Some (registry_key nul_name)"
    using nul_facts(1) by auto
  have "2 < length nul_manifest"
    by (simp add: nul_facts)
  from manifest_entries_parsed [OF bundle_with_manifest this nul_facts(3) nul_last]
  have "font_family_map (install (bundle_with (ListValue nul_manifest))) (registry_key nul_name)
      = Some (List.map_filter font_entry [font_value ''n.ttf'' (IntegerValue 400)])"
    by (rule conjunct1)
  then have nul: "font_family_map (install (bundle_with (ListValue nul_manifest))) ''A''
      = Some [\<lparr>asset_path = ''n.ttf'', weight = 400, style = FontStyleNormal\<rparr>]"
    unfolding font_entry_value nul_facts(4) .
  show ?thesis
    by (intro conjI mixed_facts(2) skipped mixed nul_facts(3) nul_facts(4) nul)
qed

text \<open>
  The claim as stated fails for a repeated family name, and a font entry whose weight has
  the wrong type is kept: the first Roboto entry of this manifest has two valid font
  entries, yet the registry entry of Roboto has one variant, the one of the second Roboto
  entry, whose weight \<open>''bold''\<close> is not an integer and became 400.
\<close>

theorem manifest_entries_counterexample:
  "family_entry (repeated_family_manifest ! 0)
     = Some (''Roboto'',
         [font_value ''fonts/Roboto-Regular.ttf'' (IntegerValue 400),
          font_value ''fonts/Roboto-Medium.ttf'' (IntegerValue 500)])
   \<and> length (List.map_filter font_entry
         [font_value ''fonts/Roboto-Regular.ttf'' (IntegerValue 400),
          font_value ''fonts/Roboto-Medium.ttf'' (IntegerValue 500)]) = 2
   \<and> font_family_map (install (bundle_with (ListValue repeated_family_manifest))) ''Roboto''
     = Some [\<lparr>asset_path = ''fonts/Roboto-Bold.ttf'', weight = 400, style = FontStyleNormal\<rparr>]"
  by (simp add: install_def parseFontManifest_def FlutterFontSelector_new_def GetAsList_def
      bundle_with_def repeated_family_manifest_def family_value_def font_value_def
      parse_family_def parse_font_def GetAsDictionary_def GetString_def GetList_def GetInteger_def
      FlutterFontAttributes_new_def kFontWeightNormal_eq family_entry_def font_entry_def
      List.map_filter_simps c_str_def AtomicString_fromUTF8_def Let_def)

subsection \<open>What a call leaves in place\<close>

lemma fetched_append: "fetched (es @ es') = fetched es @ fetched es'"
  by (induction es rule: fetched.induct) simp_all

lemma resolveTypeface_cached:
  "typeface_cache s path = Some a \<Longrightarrow> resolveTypeface c path s = (map_option typeface a, s)"
  by (cases a) (simp_all add: resolveTypeface_def)

lemma resolveTypeface_frame:
  assumes "resolveTypeface c path s = (r, s')"
  shows "font_family_map s' = font_family_map s"
    and "font_platform_data_cache s' = font_platform_data_cache s"
    and "font_data_heap s' = font_data_heap s"
  using assms
  by (auto simp: resolveTypeface_def Let_def split: option.splits)

lemma resolveTypeface_keeps:
  assumes "resolveTypeface c path s = (r, s')" and "typeface_cache s q = Some a"
  shows "typeface_cache s' q = Some a"
  using assms
  by (auto simp: resolveTypeface_def Let_def cache_insert_def split: option.splits)

lemma resolveTypeface_records:
  assumes "resolveTypeface c path s = (r, s')"
  shows "\<exists>a. typeface_cache s' path = Some a \<and> r = map_option typeface a"
  using assms
  by (auto simp: resolveTypeface_def Let_def cache_insert_def split: option.splits)

lemma resolveTypeface_failure:
  assumes "typeface_cache s path = None"
    and "GetAsBuffer c path = None
         \<or> (\<exists>buf. GetAsBuffer c path = Some buf \<and> createFromStream c buf = None)"
    and "resolveTypeface c path s = (r, s')"
  shows "r = None \<and> typeface_cache s' path = Some None"
  using assms
  by (auto simp: resolveTypeface_def Let_def cache_insert_def split: option.splits)

lemma resolveTypeface_trace:
  assumes "resolveTypeface c path s = (r, s')"
  shows "\<exists>new. trace s' = trace s @ new
           \<and> fetched new = (if typeface_cache s path = None then [path] else [])
           \<and> dom (typeface_cache s') = dom (typeface_cache s) \<union> set (fetched new)"
  using assms
  by (auto simp: resolveTypeface_def Let_def cache_insert_def split: option.splits)

lemma getTypefaceAsset_cases:
  obtains (no_family) "font_family_map s family_name = None \<or> font_family_map s family_name = Some []"
      "getTypefaceAsset c d family_name s = Inr (None, s)"
  | (resolved) fonts i where "font_family_map s family_name = Some fonts" "fonts \<noteq> []"
      "selectFont d fonts = Inr i" "i < length fonts"
      "getTypefaceAsset c d family_name s = Inr (resolveTypeface c (asset_path (fonts ! i)) s)"
proof (cases "font_family_map s family_name")
  case None
  then show ?thesis
    by (intro no_family) (simp_all add: getTypefaceAsset_def)
next
  case (Some fonts)
  show ?thesis
  proof (cases "fonts = []")
    case True
    with Some show ?thesis
      by (intro no_family) (simp_all add: getTypefaceAsset_def)
  next
    case False
    then obtain i where "selectFont d fonts = Inr i" "i < length fonts"
      using selectFont_in_range by blast
    with Some False show ?thesis
      by (intro resolved [of fonts i]) (simp_all add: getTypefaceAsset_def array_at_def)
  qed
qed

lemma getTypefaceAsset_frame:
  assumes "getTypefaceAsset c d f s = Inr (r, s')"
  shows "font_family_map s' = font_family_map s"
    and "font_platform_data_cache s' = font_platform_data_cache s"
    and "font_data_heap s' = font_data_heap s"
proof -
  have "font_family_map s' = font_family_map s
        \<and> font_platform_data_cache s' = font_platform_data_cache s
        \<and> font_data_heap s' = font_data_heap s"
  proof (cases rule: getTypefaceAsset_cases [of s f c d])
    case no_family
    with assms show ?thesis
      by simp
  next
    case (resolved fonts i)
    with assms have "resolveTypeface c (asset_path (fonts ! i)) s = (r, s')"
      by simp
    then show ?thesis
      by (simp add: resolveTypeface_frame)
  qed
  then show "font_family_map s' = font_family_map s"
    and "font_platform_data_cache s' = font_platform_data_cache s"
    and "font_data_heap s' = font_data_heap s"
    by simp_all
qed

lemma cacheKey_inject:
  "cacheKey d f = cacheKey d' f' \<longleftrightarrow> d = d' \<and> f = f'"
  by (cases d; cases d') (auto simp: cacheKey_def)

lemma extends_refl: "extends s s"
  by (simp add: extends_def)

lemma extends_trans: "extends s s1 \<Longrightarrow> extends s1 s2 \<Longrightarrow> extends s s2"
  by (auto simp: extends_def)

lemma entry_sound_extends:
  assumes "extends s s'" and "entry_sound s d f r"
  shows "entry_sound s' d f r"
proof -
  from assms(2) obtain fonts i a where r: "r < length (font_data_heap s)"
    and sel: "font_family_map s f = Some fonts" "fonts \<noteq> []" "selectFont d fonts = Inr i"
      "i < length fonts"
    and tc: "typeface_cache s (asset_path (fonts ! i)) = Some (Some a)"
    and obj: "font_data_heap s ! r = platform_data_for (typeface a) d f"
    by (auto simp: entry_sound_def)
  from assms(1) obtain objs where heap: "font_data_heap s' = font_data_heap s @ objs"
    by (auto simp: extends_def)
  have "font_family_map s' f = Some fonts"
    using assms(1) sel by (simp add: extends_def)
  moreover have "typeface_cache s' (asset_path (fonts ! i)) = Some (Some a)"
    using assms(1) tc by (simp add: extends_def)
  moreover have "r < length (font_data_heap s')"
    "font_data_heap s' ! r = platform_data_for (typeface a) d f"
    using r obj heap by (simp_all add: nth_append)
  ultimately show ?thesis
    using sel by (auto simp: entry_sound_def)
qed

lemma resolveTypeface_extends:
  assumes "resolveTypeface c path s = (r, s')"
  shows "extends s s'"
  using resolveTypeface_frame [OF assms] resolveTypeface_keeps [OF assms]
  by (simp add: extends_def)

lemma getTypefaceAsset_extends:
  assumes "getTypefaceAsset c d f s = Inr (r, s')"
  shows "extends s s'"
proof (cases rule: getTypefaceAsset_cases [of s f c d])
  case no_family
  with assms show ?thesis
    by (simp add: extends_refl)
next
  case (resolved fonts i)
  with assms have "resolveTypeface c (asset_path (fonts ! i)) s = (r, s')"
    by simp
  then show ?thesis
    by (rule resolveTypeface_extends)
qed

lemma getFontData_cases:
  obtains (hit) r where "font_platform_data_cache s (cacheKey d f) = Some r"
      "getFontData c d f s = Inr (Some r, s)"
  | (not_found) s1 where "font_platform_data_cache s (cacheKey d f) = None"
      "getTypefaceAsset c d f s = Inr (None, s1)" "getFontData c d f s = Inr (None, s1)"
  | (created) tf s1 where "font_platform_data_cache s (cacheKey d f) = None"
      "getTypefaceAsset c d f s = Inr (Some tf, s1)"
      "getFontData c d f s =
         Inr (Some (length (font_data_heap s1)),
              s1\<lparr>font_data_heap := font_data_heap s1 @ [platform_data_for tf d f],
                 font_platform_data_cache :=
                   (font_platform_data_cache s1)(cacheKey d f \<mapsto> length (font_data_heap s1))\<rparr>)"
proof (cases "font_platform_data_cache s (cacheKey d f)")
  case (Some r)
  then show ?thesis
    by (intro hit [of r]) (simp_all add: getFontData_def)
next
  case None
  obtain res s1 where g: "getTypefaceAsset c d f s = Inr (res, s1)"
    by (cases rule: getTypefaceAsset_cases [of s f c d]) (auto intro: prod.exhaust)
  show ?thesis
  proof (cases res)
    case None
    with \<open>font_platform_data_cache s (cacheKey d f) = None\<close> g show ?thesis
      by (intro not_found [of s1]) (simp_all add: getFontData_def)
  next
    case (Some tf)
    with \<open>font_platform_data_cache s (cacheKey d f) = None\<close> g show ?thesis
      by (intro created [of tf s1]) (simp_all add: getFontData_def platform_data_for_def Let_def)
  qed
qed

lemma getFontData_total: "\<exists>r s'. getFontData c d f s = Inr (r, s')"
  by (cases rule: getFontData_cases [of s d f c]) auto

lemma getFontData_extends:
  assumes "getFontData c d f s = Inr (r, s')"
  shows "extends s s'"
proof (cases rule: getFontData_cases [of s d f c])
  case (hit r')
  with assms show ?thesis
    by (simp add: extends_refl)
next
  case (not_found s1)
  with assms getTypefaceAsset_extends [of c d f s None s1] show ?thesis
    by simp
next
  case (created tf s1)
  then have "extends s s1"
    using getTypefaceAsset_extends by blast
  moreover have "font_platform_data_cache s1 (cacheKey d f) = None"
    using created(1) getTypefaceAsset_frame(2) [OF created(2)] by simp
  ultimately show ?thesis
    using assms created(3) by (auto simp: extends_def)
qed

lemma getFontData_cached:
  assumes "getFontData c d f s = Inr (Some r, s')"
  shows "font_platform_data_cache s' (cacheKey d f) = Some r"
  using assms by (cases rule: getFontData_cases [of s d f c]) auto

lemma getFontData_sound:
  assumes "cache_sound s" and "getFontData c d f s = Inr (r, s')"
  shows "cache_sound s'"
proof -
  have ext: "extends s s'"
    using assms(2) by (rule getFontData_extends)
  show ?thesis
  proof (cases rule: getFontData_cases [of s d f c])
    case (hit r')
    with assms show ?thesis
      by simp
  next
    case (not_found s1)
    with assms(2) have "font_platform_data_cache s' = font_platform_data_cache s"
      using getTypefaceAsset_frame(2) by auto
    with assms(1) ext show ?thesis
      by (auto simp: cache_sound_def intro: entry_sound_extends)
  next
    case (created tf s1)
    let ?new = "length (font_data_heap s1)"
    from created(3) assms(2)
    have s': "s' = s1\<lparr>font_data_heap := font_data_heap s1 @ [platform_data_for tf d f],
                      font_platform_data_cache :=
                        (font_platform_data_cache s1)(cacheKey d f \<mapsto> ?new)\<rparr>"
      by simp
    have frame: "font_platform_data_cache s1 = font_platform_data_cache s"
      using getTypefaceAsset_frame(2) [OF created(2)] .
    have new_sound: "entry_sound s' d f ?new"
    proof (cases rule: getTypefaceAsset_cases [of s f c d])
      case no_family
      with created(2) show ?thesis
        by simp
    next
      case (resolved fonts i)
      with created(2) have res: "resolveTypeface c (asset_path (fonts ! i)) s = (Some tf, s1)"
        by simp
      from resolveTypeface_records [OF res]
      obtain a where "typeface_cache s1 (asset_path (fonts ! i)) = Some (Some a)"
        "typeface a = tf"
        by (auto simp: map_option_case split: option.splits)
      moreover have "font_family_map s1 f = Some fonts"
        using resolved(1) resolveTypeface_frame(1) [OF res] by simp
      ultimately show ?thesis
        using resolved(2-4) by (auto simp: entry_sound_def s')
    qed
    show ?thesis
      unfolding cache_sound_def
    proof (intro allI impI)
      fix d' f' r'
      assume look: "font_platform_data_cache s' (cacheKey d' f') = Some r'"
      show "entry_sound s' d' f' r'"
      proof (cases "cacheKey d' f' = cacheKey d f")
        case True
        then have "d' = d" "f' = f"
          by (simp_all add: cacheKey_inject)
        moreover from look True have "r' = ?new"
          by (simp add: s')
        ultimately show ?thesis
          using new_sound by simp
      next
        case False
        with look have "font_platform_data_cache s (cacheKey d' f') = Some r'"
          by (simp add: s' frame)
        with assms(1) have "entry_sound s d' f' r'"
          by (simp add: cache_sound_def)
        with ext show ?thesis
          by (rule entry_sound_extends)
      qed
    qed
  qed
qed


subsection \<open>Sequences of calls\<close>

lemma getFontData_calls_total: "\<exists>s'. getFontData_calls rs s = Inr s'"
proof (induction rs arbitrary: s)
  case Nil
  show ?case by simp
next
  case (Cons req rs)
  obtain c d f where req: "req = (c, d, f)"
    by (cases req) auto
  obtain r s1 where "getFontData c d f s = Inr (r, s1)"
    using getFontData_total by blast
  with Cons [of s1] req show ?case
    by simp
qed

lemma getFontData_calls_step:
  assumes "getFontData_calls ((c, d, f) # rs) s = Inr s'"
  obtains r s1 where "getFontData c d f s = Inr (r, s1)" "getFontData_calls rs s1 = Inr s'"
  using assms by (auto split: sum.splits)

lemma getFontData_calls_append:
  "getFontData_calls (rs @ rs') s =
     (case getFontData_calls rs s of Inl e \<Rightarrow> Inl e | Inr s1 \<Rightarrow> getFontData_calls rs' s1)"
  by (induction rs s rule: getFontData_calls.induct) (auto split: sum.splits)

lemma getFontData_calls_extends:
  "getFontData_calls rs s = Inr s' \<Longrightarrow> extends s s'"
proof (induction rs arbitrary: s)
  case Nil
  then show ?case
    by (simp add: extends_refl)
next
  case (Cons req rs)
  obtain c d f where req: "req = (c, d, f)"
    by (cases req) auto
  from Cons.prems obtain r s1 where "getFontData c d f s = Inr (r, s1)"
    "getFontData_calls rs s1 = Inr s'"
    unfolding req by (rule getFontData_calls_step)
  then show ?case
    using Cons.IH getFontData_extends extends_trans by blast
qed

lemma getFontData_calls_sound:
  "cache_sound s \<Longrightarrow> getFontData_calls rs s = Inr s' \<Longrightarrow> cache_sound s'"
proof (induction rs arbitrary: s)
  case Nil
  then show ?case
    by simp
next
  case (Cons req rs)
  obtain c d f where req: "req = (c, d, f)"
    by (cases req) auto
  from Cons.prems(2) obtain r s1 where "getFontData c d f s = Inr (r, s1)"
    "getFontData_calls rs s1 = Inr s'"
    unfolding req by (rule getFontData_calls_step)
  then show ?case
    using Cons.IH Cons.prems(1) getFontData_sound by blast
qed

lemma reachable_sound:
  assumes "getFontData_calls rs (install c) = Inr s"
  shows "cache_sound s"
proof -
  have "cache_sound (install c)"
    by (simp add: cache_sound_def install_caches)
  then show ?thesis
    using assms by (rule getFontData_calls_sound)
qed

lemma getFontData_trace:
  assumes "getFontData c d f s = Inr (r, s')"
  shows "\<exists>new. trace s' = trace s @ new \<and> distinct (fetched new)
           \<and> set (fetched new) \<inter> dom (typeface_cache s) = {}
           \<and> dom (typeface_cache s') = dom (typeface_cache s) \<union> set (fetched new)"
proof -
  have same: ?thesis if "s' = s"
    using that by (intro exI [of _ "[]"]) simp
  have res: ?thesis if "resolveTypeface c path s = (r', s1)" "trace s' = trace s1"
    "typeface_cache s' = typeface_cache s1" for path r' s1
  proof -
    from resolveTypeface_trace [OF that(1)] obtain new where "trace s1 = trace s @ new"
      "fetched new = (if typeface_cache s path = None then [path] else [])"
      "dom (typeface_cache s1) = dom (typeface_cache s) \<union> set (fetched new)"
      by blast
    then show ?thesis
      using that(2,3) by (intro exI [of _ new]) (auto split: if_splits)
  qed
  show ?thesis
  proof (cases rule: getFontData_cases [of s d f c])
    case (hit r')
    with assms show ?thesis
      by (intro same) simp
  next
    case (not_found s1)
    with assms have s1: "s1 = s'"
      by simp
    show ?thesis
    proof (cases rule: getTypefaceAsset_cases [of s f c d])
      case no_family
      with not_found(2) s1 show ?thesis
        by (intro same) simp
    next
      case (resolved fonts i)
      with not_found(2) s1 show ?thesis
        by (intro res [of "asset_path (fonts ! i)" None s']) simp_all
    qed
  next
    case (created tf s1)
    with assms have s': "trace s' = trace s1" "typeface_cache s' = typeface_cache s1"
      by auto
    show ?thesis
    proof (cases rule: getTypefaceAsset_cases [of s f c d])
      case no_family
      with created(2) show ?thesis
        by simp
    next
      case (resolved fonts i)
      with created(2) s' show ?thesis
        by (intro res [of "asset_path (fonts ! i)" "Some tf" s1]) simp_all
    qed
  qed
qed

lemma getFontData_calls_trace:
  "getFontData_calls rs s = Inr s' \<Longrightarrow>
   \<exists>new. trace s' = trace s @ new \<and> distinct (fetched new)
     \<and> set (fetched new) \<inter> dom (typeface_cache s) = {}
     \<and> dom (typeface_cache s') = dom (typeface_cache s) \<union> set (fetched new)"
proof (induction rs arbitrary: s)
  case Nil
  then show ?case
    by (intro exI [of _ "[]"]) simp
next
  case (Cons req rs)
  obtain c d f where req: "req = (c, d, f)"
    by (cases req) auto
  from Cons.prems obtain r s1 where first: "getFontData c d f s = Inr (r, s1)"
    and rest: "getFontData_calls rs s1 = Inr s'"
    unfolding req by (rule getFontData_calls_step)
  from getFontData_trace [OF first] obtain new1 where n1: "trace s1 = trace s @ new1"
    "distinct (fetched new1)" "set (fetched new1) \<inter> dom (typeface_cache s) = {}"
    "dom (typeface_cache s1) = dom (typeface_cache s) \<union> set (fetched new1)"
    by blast
  from Cons.IH [OF rest] obtain new2 where n2: "trace s' = trace s1 @ new2"
    "distinct (fetched new2)" "set (fetched new2) \<inter> dom (typeface_cache s1) = {}"
    "dom (typeface_cache s') = dom (typeface_cache s1) \<union> set (fetched new2)"
    by blast
  show ?case
    using n1 n2 by (intro exI [of _ "new1 @ new2"]) (auto simp: fetched_append)
qed

lemma getFontData_empty_selector:
  assumes "font_family_map s = Map.empty" "font_platform_data_cache s = Map.empty"
  shows "getFontData c d f s = Inr (None, s)"
  using assms by (simp add: getFontData_def getTypefaceAsset_def)

lemma getFontData_calls_empty_selector:
  assumes "font_family_map s = Map.empty" "font_platform_data_cache s = Map.empty"
  shows "getFontData_calls rs s = Inr s"
proof (induction rs)
  case Nil
  show ?case by simp
next
  case (Cons req rs)
  obtain c d f where "req = (c, d, f)"
    by (cases req) auto
  with Cons assms show ?case
    by (simp add: getFontData_empty_selector)
qed

lemma FontWeight600_iff:
  assumes "d_weight d \<le> FontWeight900"
  shows "FontWeight600 \<le> d_weight d \<longleftrightarrow> 600 \<le> requested_weight d"
  using assms by (auto simp: FontWeight600_def FontWeight900_def requested_weight_def)


subsection \<open>The example bundle, evaluated\<close>

lemma roboto_registry:
  "font_family_map (install roboto_bundle) ''Roboto'' = Some roboto_fonts"
  "font_family_map (install roboto_bundle) ''Empty'' = Some []"
  "font_family_map (install roboto_bundle) ''Arial'' = None"
  by (simp_all add: install_def parseFontManifest_def FlutterFontSelector_new_def GetAsList_def
      roboto_bundle_def roboto_manifest_def family_value_def font_value_def roboto_fonts_def
      parse_family_def parse_font_def GetAsDictionary_def GetString_def GetList_def GetInteger_def
      FlutterFontAttributes_new_def kFontWeightNormal_eq c_str_def AtomicString_fromUTF8_def
      Let_def)

lemma roboto_select: "selectFont black_italic_request roboto_fonts = Inr 1"
  by code_simp

lemma regular_select: "selectFont regular_request roboto_fonts = Inr 0"
  by code_simp

lemma roboto_assets:
  "GetAsBuffer roboto_bundle ''fonts/Roboto-Bold.ttf'' = Some [1]"
  "GetAsBuffer roboto_bundle ''fonts/Roboto-Regular.ttf'' = None"
  "createFromStream roboto_bundle [1] = Some \<lparr>uniqueID = 1, isBold = False, isItalic = False\<rparr>"
  by (simp_all add: roboto_bundle_def kFontManifestAssetPath_def)

lemma roboto_fonts_facts:
  "roboto_fonts \<noteq> []" "length roboto_fonts = 2"
  "array_at roboto_fonts 1
   = Inr \<lparr>asset_path = ''fonts/Roboto-Bold.ttf'', weight = 700, style = FontStyleNormal\<rparr>"
  by (simp_all add: roboto_fonts_def array_at_def)

lemma roboto_fonts_first:
  "0 < length roboto_fonts" "asset_path (roboto_fonts ! 0) = ''fonts/Roboto-Regular.ttf''"
  by (simp_all add: roboto_fonts_def)

lemma roboto_typeface:
  "getTypefaceAsset roboto_bundle black_italic_request ''Roboto'' (install roboto_bundle)
   = Inr (resolveTypeface roboto_bundle ''fonts/Roboto-Bold.ttf'' (install roboto_bundle))"
  using roboto_fonts_facts(3)
  by (simp add: getTypefaceAsset_def roboto_registry roboto_select roboto_fonts_facts(1,2))

lemma roboto_resolve:
  "\<exists>s1. resolveTypeface roboto_bundle ''fonts/Roboto-Bold.ttf'' (install roboto_bundle)
          = (Some \<lparr>uniqueID = 1, isBold = False, isItalic = False\<rparr>, s1)
        \<and> font_data_heap s1 = []"
  by (simp add: resolveTypeface_def install_caches roboto_assets cache_insert_def Let_def)

lemma roboto_first_call:
  "\<exists>s1. getFontData roboto_bundle black_italic_request ''Roboto'' (install roboto_bundle)
          = Inr (Some 0, s1)"
proof -
  from roboto_resolve obtain s1
    where "resolveTypeface roboto_bundle ''fonts/Roboto-Bold.ttf'' (install roboto_bundle)
             = (Some \<lparr>uniqueID = 1, isBold = False, isItalic = False\<rparr>, s1)"
      and "font_data_heap s1 = []"
    by blast
  then show ?thesis
    by (simp add: getFontData_def install_caches roboto_typeface Let_def)
qed

lemma black_italic_fields:
  "d_weight black_italic_request = 8" "d_style black_italic_request = FontStyleItalic"
  "isSyntheticBold black_italic_request = False" "isSyntheticItalic black_italic_request = False"
  by (simp_all add: black_italic_request_def)

lemma roboto_first_call_flags:
  "\<exists>s1. getFontData roboto_bundle black_italic_request ''Roboto'' (install roboto_bundle)
          = Inr (Some 0, s1)
        \<and> pd_syntheticBold (font_data_heap s1 ! 0) \<and> pd_syntheticItalic (font_data_heap s1 ! 0)"
proof -
  from roboto_resolve obtain s1
    where "resolveTypeface roboto_bundle ''fonts/Roboto-Bold.ttf'' (install roboto_bundle)
             = (Some \<lparr>uniqueID = 1, isBold = False, isItalic = False\<rparr>, s1)"
      and "font_data_heap s1 = []"
    by blast
  then show ?thesis
    by (simp add: getFontData_def install_caches roboto_typeface Let_def
        black_italic_fields FontWeight600_def)
qed


subsection \<open>Failed loads stay failed\<close>

text \<open>
  Claim C2. For every asset path that is not yet in the typeface cache, once a resolve
  has failed on it (the bundle had no bytes for the path, or no typeface could be built
  from the bytes), the failure is recorded, and after any further calls of
  \<^verbatim>\<open>getFontData\<close> every resolve of that path, whatever the collaborators would answer
  by then, returns not-found and leaves the whole state as it is, the trace included:
  it neither fetches nor constructs again. The same holds for \<^verbatim>\<open>getTypefaceAsset\<close> on any
  request whose selected variant has that path.
\<close>

theorem resolveTypeface_negative_cache:
  assumes "typeface_cache s path = None"
    and "GetAsBuffer c path = None
         \<or> (\<exists>buf. GetAsBuffer c path = Some buf \<and> createFromStream c buf = None)"
    and "resolveTypeface c path s = (r, s1)"
    and "getFontData_calls rs s1 = Inr s2"
  shows "r = None \<and> typeface_cache s2 path = Some None
         \<and> resolveTypeface c' path s2 = (None, s2)
         \<and> (font_family_map s2 family_name = Some fonts \<and> selectFont d fonts = Inr i
              \<and> i < length fonts \<and> asset_path (fonts ! i) = path
             \<longrightarrow> getTypefaceAsset c' d family_name s2 = Inr (None, s2))"
proof -
  have first: "r = None" "typeface_cache s1 path = Some None"
    using resolveTypeface_failure [OF assms(1-3)] by simp_all
  have "extends s1 s2"
    using assms(4) by (rule getFontData_calls_extends)
  with first(2) have kept: "typeface_cache s2 path = Some None"
    by (simp add: extends_def)
  then have again: "resolveTypeface c' path s2 = (None, s2)"
    by (simp add: resolveTypeface_cached)
  have "getTypefaceAsset c' d family_name s2 = Inr (None, s2)"
    if "font_family_map s2 family_name = Some fonts" "selectFont d fonts = Inr i"
      "i < length fonts" "asset_path (fonts ! i) = path"
  proof -
    from that(3) have "fonts \<noteq> []"
      by auto
    with that again show ?thesis
      by (simp add: getTypefaceAsset_def array_at_def)
  qed
  with first(1) kept again show ?thesis
    by blast
qed

theorem resolveTypeface_negative_cache_witness:
  "typeface_cache (install roboto_bundle) ''fonts/Roboto-Regular.ttf'' = None
   \<and> GetAsBuffer roboto_bundle ''fonts/Roboto-Regular.ttf'' = None
   \<and> GetAsBuffer all_assets ''fonts/Roboto-Regular.ttf'' = Some [1]
   \<and> (\<exists>s1 s2.
         resolveTypeface roboto_bundle ''fonts/Roboto-Regular.ttf'' (install roboto_bundle)
           = (None, s1)
         \<and> getFontData_calls [(roboto_bundle, black_italic_request, ''Roboto'')] s1 = Inr s2
         \<and> resolveTypeface all_assets ''fonts/Roboto-Regular.ttf'' s2 = (None, s2)
         \<and> getTypefaceAsset all_assets regular_request ''Roboto'' s2 = Inr (None, s2))"
proof -
  let ?path = "''fonts/Roboto-Regular.ttf''"
  have miss: "typeface_cache (install roboto_bundle) ?path = None"
    by (simp add: install_caches)
  have absent: "GetAsBuffer roboto_bundle ?path = None"
    by (rule roboto_assets(2))
  then have fails: "GetAsBuffer roboto_bundle ?path = None
      \<or> (\<exists>buf. GetAsBuffer roboto_bundle ?path = Some buf
            \<and> createFromStream roboto_bundle buf = None)"
    by simp
  have present: "GetAsBuffer all_assets ?path = Some [1]"
    by (simp add: all_assets_def)
  obtain r s1 where first: "resolveTypeface roboto_bundle ?path (install roboto_bundle) = (r, s1)"
    by (cases "resolveTypeface roboto_bundle ?path (install roboto_bundle)") auto
  obtain s2 where calls: "getFontData_calls [(roboto_bundle, black_italic_request, ''Roboto'')] s1
      = Inr s2"
    using getFontData_calls_total by blast
  have "extends (install roboto_bundle) s1"
    using first by (rule resolveTypeface_extends)
  moreover have "extends s1 s2"
    using calls by (rule getFontData_calls_extends)
  ultimately have registry: "font_family_map s2 ''Roboto'' = Some roboto_fonts"
    by (simp add: extends_def roboto_registry)
  note later = resolveTypeface_negative_cache [OF miss fails first calls,
      of all_assets "''Roboto''" roboto_fonts regular_request 0]
  from later have "r = None" "resolveTypeface all_assets ?path s2 = (None, s2)"
    by simp_all
  moreover from later registry regular_select roboto_fonts_first
  have "getTypefaceAsset all_assets regular_request ''Roboto'' s2 = Inr (None, s2)"
    by blast
  ultimately show ?thesis
    using miss absent present first calls by blast
qed


subsection \<open>Repeated requests\<close>

text \<open>
  Claim C3. In every state reached from \<^verbatim>\<open>install\<close> by calls of \<^verbatim>\<open>getFontData\<close>: when a
  call returns a font-data object, then after any further calls every call whose request
  has an equal cache key returns the same reference and changes nothing, so no object is
  allocated; the reference is valid and the object stored under it is the one that was
  stored. Over the whole sequence of \<^verbatim>\<open>getFontData\<close> calls the fetches (those after the
  one of the manifest by \<^verbatim>\<open>install\<close>) have pairwise distinct paths: the bundle is asked
  at most once for each asset path.
\<close>

theorem getFontData_idempotent:
  assumes "getFontData_calls rs0 (install c0) = Inr s"
    and "getFontData c1 d1 f1 s = Inr (Some r, s1)"
    and "getFontData_calls rs s1 = Inr s2"
    and "cacheKey d2 f2 = cacheKey d1 f1"
  shows "getFontData c2 d2 f2 s2 = Inr (Some r, s2)
         \<and> r < length (font_data_heap s1)
         \<and> font_data_heap s2 ! r = font_data_heap s1 ! r
         \<and> distinct (fetched (drop (length (trace (install c0))) (trace s2)))"
proof -
  have cached: "font_platform_data_cache s1 (cacheKey d1 f1) = Some r"
    using assms(2) by (rule getFontData_cached)
  have ext: "extends s1 s2"
    using assms(3) by (rule getFontData_calls_extends)
  with cached assms(4) have "font_platform_data_cache s2 (cacheKey d2 f2) = Some r"
    by (simp add: extends_def)
  then have hit: "getFontData c2 d2 f2 s2 = Inr (Some r, s2)"
    by (simp add: getFontData_def)
  have "cache_sound s1"
    using reachable_sound [OF assms(1)] assms(2) by (rule getFontData_sound)
  with cached have "entry_sound s1 d1 f1 r"
    by (simp add: cache_sound_def)
  then have valid: "r < length (font_data_heap s1)"
    by (simp add: entry_sound_def)
  from ext obtain objs where "font_data_heap s2 = font_data_heap s1 @ objs"
    by (auto simp: extends_def)
  with valid have same: "font_data_heap s2 ! r = font_data_heap s1 ! r"
    by (simp add: nth_append)
  have "getFontData_calls (rs0 @ (c1, d1, f1) # rs) (install c0) = Inr s2"
    using assms(1-3) by (simp add: getFontData_calls_append)
  from getFontData_calls_trace [OF this]
  obtain new where "trace s2 = trace (install c0) @ new" "distinct (fetched new)"
    by blast
  then have "distinct (fetched (drop (length (trace (install c0))) (trace s2)))"
    by simp
  with hit valid same show ?thesis
    by simp
qed

theorem getFontData_idempotent_witness:
  "\<exists>s1 s2. getFontData roboto_bundle black_italic_request ''Roboto'' (install roboto_bundle)
          = Inr (Some 0, s1)
        \<and> getFontData_calls
              [(roboto_bundle, regular_request, ''Roboto''),
               (all_assets, regular_request, ''Roboto'')] s1 = Inr s2
        \<and> getFontData no_assets black_italic_request ''Roboto'' s2 = Inr (Some 0, s2)
        \<and> distinct (fetched (drop (length (trace (install roboto_bundle))) (trace s2)))"
proof -
  from roboto_first_call obtain s1
    where call: "getFontData roboto_bundle black_italic_request ''Roboto'' (install roboto_bundle)
                   = Inr (Some 0, s1)"
    by blast
  obtain s2 where rest: "getFontData_calls
      [(roboto_bundle, regular_request, ''Roboto''),
       (all_assets, regular_request, ''Roboto'')] s1 = Inr s2"
    using getFontData_calls_total by blast
  have start: "getFontData_calls [] (install roboto_bundle) = Inr (install roboto_bundle)"
    by simp
  from getFontData_idempotent [OF start call rest refl, of no_assets] call rest show ?thesis
    by blast
qed


subsection \<open>The synthetic flags\<close>

text \<open>
  Claim C4. In every state reached from \<^verbatim>\<open>install\<close> by calls of \<^verbatim>\<open>getFontData\<close>, for
  every request whose weight is a member of the \<^verbatim>\<open>FontWeight\<close> enum: when \<^verbatim>\<open>getFontData\<close>
  returns a font-data object, the typeface of that object is the one the typeface cache
  holds for the variant selected for the request; its synthetic-bold flag is true if and
  only if the requested weight is at least 600 and that typeface does not report itself
  bold, or the request's own synthetic-bold flag is set; and its synthetic-italic flag is
  true if and only if the requested style is Italic and the typeface does not report
  itself italic, or the request's own synthetic-italic flag is set.
\<close>

theorem getFontData_synthetic_flags:
  assumes "getFontData_calls rs (install c0) = Inr s"
    and "getFontData c d family_name s = Inr (Some r, s')"
    and "d_weight d \<le> FontWeight900"
  shows "r < length (font_data_heap s')
         \<and> (\<exists>fonts i a. font_family_map s' family_name = Some fonts
               \<and> selectFont d fonts = Inr i \<and> i < length fonts
               \<and> typeface_cache s' (asset_path (fonts ! i)) = Some (Some a)
               \<and> pd_typeface (font_data_heap s' ! r) = typeface a
               \<and> (pd_syntheticBold (font_data_heap s' ! r)
                    \<longleftrightarrow> (600 \<le> requested_weight d \<and> \<not> isBold (typeface a))
                         \<or> isSyntheticBold d)
               \<and> (pd_syntheticItalic (font_data_heap s' ! r)
                    \<longleftrightarrow> (d_style d = FontStyleItalic \<and> \<not> isItalic (typeface a))
                         \<or> isSyntheticItalic d))"
proof -
  have "cache_sound s'"
    using reachable_sound [OF assms(1)] assms(2) by (rule getFontData_sound)
  moreover have "font_platform_data_cache s' (cacheKey d family_name) = Some r"
    using assms(2) by (rule getFontData_cached)
  ultimately have "entry_sound s' d family_name r"
    by (simp add: cache_sound_def)
  then obtain fonts i a where valid: "r < length (font_data_heap s')"
    and sel: "font_family_map s' family_name = Some fonts" "selectFont d fonts = Inr i"
      "i < length fonts" "typeface_cache s' (asset_path (fonts ! i)) = Some (Some a)"
    and obj: "font_data_heap s' ! r = platform_data_for (typeface a) d family_name"
    by (auto simp: entry_sound_def)
  have italic: "d_style d \<noteq> FontStyleNormal \<longleftrightarrow> d_style d = FontStyleItalic"
    by (cases "d_style d") simp_all
  have "pd_typeface (font_data_heap s' ! r) = typeface a"
    and "pd_syntheticBold (font_data_heap s' ! r)
         \<longleftrightarrow> (600 \<le> requested_weight d \<and> \<not> isBold (typeface a)) \<or> isSyntheticBold d"
    and "pd_syntheticItalic (font_data_heap s' ! r)
         \<longleftrightarrow> (d_style d = FontStyleItalic \<and> \<not> isItalic (typeface a)) \<or> isSyntheticItalic d"
    by (simp_all add: obj platform_data_for_def FontWeight600_iff [OF assms(3)] italic)
  with valid sel show ?thesis
    by blast
qed

theorem getFontData_synthetic_flags_witness:
  "\<exists>s1. getFontData roboto_bundle black_italic_request ''Roboto'' (install roboto_bundle)
          = Inr (Some 0, s1)
        \<and> d_weight black_italic_request \<le> FontWeight900
        \<and> 600 \<le> requested_weight black_italic_request
        \<and> d_style black_italic_request = FontStyleItalic
        \<and> 0 < length (font_data_heap s1)
        \<and> pd_syntheticBold (font_data_heap s1 ! 0)
        \<and> pd_syntheticItalic (font_data_heap s1 ! 0)"
proof -
  from roboto_first_call_flags obtain s1
    where call: "getFontData roboto_bundle black_italic_request ''Roboto'' (install roboto_bundle)
                   = Inr (Some 0, s1)"
      and flags: "pd_syntheticBold (font_data_heap s1 ! 0)"
        "pd_syntheticItalic (font_data_heap s1 ! 0)"
    by blast
  have start: "getFontData_calls [] (install roboto_bundle) = Inr (install roboto_bundle)"
    by simp
  have member: "d_weight black_italic_request \<le> FontWeight900"
    by (simp add: black_italic_request_def FontWeight900_def)
  have request: "600 \<le> requested_weight black_italic_request"
    "d_style black_italic_request = FontStyleItalic"
    by (simp_all add: black_italic_request_def requested_weight_def)
  from getFontData_synthetic_flags [OF start call member]
  have "0 < length (font_data_heap s1)"
    by blast
  with call member request flags show ?thesis
    by blast
qed


subsection \<open>Unknown families\<close>

text \<open>
  Claim C7. In every state reached from \<^verbatim>\<open>install\<close> by calls of \<^verbatim>\<open>getFontData\<close>, for
  every request whose family is absent from the family map, or present with an empty
  variant list, \<^verbatim>\<open>getFontData\<close> returns not-found and returns the state as it was:
  neither the font-data cache nor the typeface cache changes and nothing is recorded
  about the family, so a later call for it looks the family up again.
\<close>

theorem getFontData_unknown_family:
  assumes "getFontData_calls rs (install c0) = Inr s"
    and "font_family_map s family_name = None \<or> font_family_map s family_name = Some []"
  shows "getFontData c d family_name s = Inr (None, s)"
proof -
  have "cache_sound s"
    using assms(1) by (rule reachable_sound)
  have miss: "font_platform_data_cache s (cacheKey d family_name) = None"
  proof (cases "font_platform_data_cache s (cacheKey d family_name)")
    case (Some r)
    with \<open>cache_sound s\<close> have "entry_sound s d family_name r"
      by (simp add: cache_sound_def)
    then obtain fonts where "font_family_map s family_name = Some fonts" "fonts \<noteq> []"
      by (auto simp: entry_sound_def)
    with assms(2) show ?thesis
      by auto
  qed simp
  from assms(2) have "getTypefaceAsset c d family_name s = Inr (None, s)"
    by (auto simp: getTypefaceAsset_def)
  with miss show ?thesis
    by (simp add: getFontData_def)
qed

theorem getFontData_unknown_family_witness:
  "getFontData_calls [] (install roboto_bundle) = Inr (install roboto_bundle)
   \<and> font_family_map (install roboto_bundle) ''Arial'' = None
   \<and> getFontData roboto_bundle black_italic_request ''Arial'' (install roboto_bundle)
       = Inr (None, install roboto_bundle)
   \<and> font_family_map (install roboto_bundle) ''Empty'' = Some []
   \<and> getFontData roboto_bundle black_italic_request ''Empty'' (install roboto_bundle)
       = Inr (None, install roboto_bundle)"
proof -
  have h: "getFontData_calls [] (install roboto_bundle) = Inr (install roboto_bundle)"
    by simp
  have a: "font_family_map (install roboto_bundle) ''Arial'' = None"
    and e: "font_family_map (install roboto_bundle) ''Empty'' = Some []"
    by (simp_all add: roboto_registry)
  from a have a': "font_family_map (install roboto_bundle) ''Arial'' = None
      \<or> font_family_map (install roboto_bundle) ''Arial'' = Some []"
    by simp
  from e have e': "font_family_map (install roboto_bundle) ''Empty'' = None
      \<or> font_family_map (install roboto_bundle) ''Empty'' = Some []"
    by simp
  show ?thesis
    using h a e getFontData_unknown_family [OF h a', of roboto_bundle black_italic_request]
      getFontData_unknown_family [OF h e', of roboto_bundle black_italic_request]
    by simp
qed


subsection \<open>No manifest\<close>

text \<open>
  Claim C8. When the bundle has no manifest at the well-known path, or the manifest's
  bytes are not readable, or their top level is not a list, \<^verbatim>\<open>install\<close> gives a selector
  with an empty family map; every sequence of \<^verbatim>\<open>getFontData\<close> calls on it runs without
  a fault and leaves the selector as it is, and every call returns not-found.
\<close>

theorem install_without_manifest:
  assumes "GetAsBuffer c0 kFontManifestAssetPath = None
           \<or> (\<exists>buf. GetAsBuffer c0 kFontManifestAssetPath = Some buf
                 \<and> (JSONReader_Read c0 buf = None
                     \<or> (\<exists>json. JSONReader_Read c0 buf = Some json \<and> GetAsList json = None)))"
  shows "font_family_map (install c0) = Map.empty
         \<and> getFontData_calls rs (install c0) = Inr (install c0)
         \<and> getFontData c d family_name (install c0) = Inr (None, install c0)"
proof -
  have "install c0 = FlutterFontSelector_new\<lparr>trace := [Fetch kFontManifestAssetPath]\<rparr>"
    using assms by (rule install_no_registry)
  then have "font_family_map (install c0) = Map.empty"
    "font_platform_data_cache (install c0) = Map.empty"
    by (simp_all add: FlutterFontSelector_new_def)
  then show ?thesis
    by (simp add: getFontData_empty_selector getFontData_calls_empty_selector)
qed

theorem install_without_manifest_witness:
  "GetAsBuffer no_assets kFontManifestAssetPath = None
   \<and> font_family_map (install no_assets) = Map.empty
   \<and> getFontData_calls [(roboto_bundle, black_italic_request, ''Roboto'')] (install no_assets)
       = Inr (install no_assets)
   \<and> getFontData roboto_bundle black_italic_request ''Roboto'' (install no_assets)
       = Inr (None, install no_assets)
   \<and> GetAsList (StringValue ''fonts'') = None
   \<and> font_family_map (install (bundle_with (StringValue ''fonts''))) = Map.empty
   \<and> getFontData roboto_bundle black_italic_request ''Roboto''
         (install (bundle_with (StringValue ''fonts'')))
       = Inr (None, install (bundle_with (StringValue ''fonts'')))"
proof -
  have absent: "GetAsBuffer no_assets kFontManifestAssetPath = None"
    by (simp add: no_assets_def)
  have not_list: "GetAsList (StringValue ''fonts'') = None"
    by (simp add: GetAsList_def)
  have h2: "GetAsBuffer (bundle_with (StringValue ''fonts'')) kFontManifestAssetPath = None
      \<or> (\<exists>buf. GetAsBuffer (bundle_with (StringValue ''fonts'')) kFontManifestAssetPath = Some buf
            \<and> (JSONReader_Read (bundle_with (StringValue ''fonts'')) buf = None
                \<or> (\<exists>json. JSONReader_Read (bundle_with (StringValue ''fonts'')) buf = Some json
                      \<and> GetAsList json = None)))"
    by (simp add: bundle_with_def not_list)
  from absent have h1: "GetAsBuffer no_assets kFontManifestAssetPath = None
      \<or> (\<exists>buf. GetAsBuffer no_assets kFontManifestAssetPath = Some buf
            \<and> (JSONReader_Read no_assets buf = None
                \<or> (\<exists>json. JSONReader_Read no_assets buf = Some json \<and> GetAsList json = None)))"
    by simp
  show ?thesis
    using absent not_list
      install_without_manifest [OF h1,
        of "[(roboto_bundle, black_italic_request, ''Roboto'')]" roboto_bundle
           black_italic_request "''Roboto''"]
      install_without_manifest [OF h2, of "[]" roboto_bundle black_italic_request "''Roboto''"]
    by simp
qed


end
